theory Spec2Isabelle
  imports Main "HOL-Library.AList"
begin

section \<open>Values, records of the sources and the two tables\<close>

text \<open>
  A nullable text: \<open>None\<close> is Python's \<open>None\<close>, which the sqlite3 module binds as
  SQL NULL.
\<close>

type_synonym sqltext = "string option"

text \<open>
  A record of the SEPTA listing, in the format that \<open>fetch_septa_stops\<close> documents
  (septa.py, lines 59-66): the four values that are read are text. A field is \<open>None\<close>
  when the key is absent or holds JSON null; \<open>d.get(key)\<close> gives \<open>None\<close> in both cases.
  A number of at most 64 bits in the place of an id or a name is stored and compared by
  the TEXT column as its text, so it is represented by that text.
\<close>

record septa_rec =
  location_id :: sqltext
  location_name :: sqltext
  location_lat :: sqltext
  location_lon :: sqltext

text \<open>
  A record of the LocationIQ listing. The distance is a JSON integer, a Python int of
  any size; it is \<open>None\<close> when the key is absent or holds null. Name and class are
  read with a default, which replaces an absent key only: \<open>None\<close> is the absent key,
  \<open>Some None\<close> a null, \<open>Some (Some s)\<close> a text. A distance given as the text of an
  integer of at most 64 bits is stored and compared by the INTEGER column as that
  integer, so it is represented by that integer.
\<close>

record poi_rec =
  pd_distance :: "int option"
  pd_name :: "sqltext option"
  pd_class :: "sqltext option"

text \<open>\<open>d.get(k, default)\<close>, on the field of key \<open>k\<close>.\<close>

definition get_or :: "'a option \<Rightarrow> 'a \<Rightarrow> 'a" where
  "get_or field dflt = (case field of None \<Rightarrow> dflt | Some v \<Rightarrow> v)"

text \<open>
  SQL comparison in a WHERE or ON clause: a row is selected only when the condition is
  true, and a comparison with NULL is never true.
\<close>

definition sql_eq :: "'a option \<Rightarrow> 'a option \<Rightarrow> bool" where
  "sql_eq a b = (a \<noteq> None \<and> b \<noteq> None \<and> a = b)"

fun sql_le :: "int option \<Rightarrow> int \<Rightarrow> bool" where
  "sql_le (Some d) t = (d \<le> t)"
| "sql_le None t = False"

text \<open>
  The sqlite3 module binds a Python int as a 64-bit signed integer and raises
  OverflowError for any other int, before the statement runs.
\<close>

definition bindable :: "int option \<Rightarrow> bool" where
  "bindable v = (case v of None \<Rightarrow> True | Some n \<Rightarrow> - (2 ^ 63) \<le> n \<and> n < 2 ^ 63)"

text \<open>
  Table \<open>stops\<close> (septa.py, init_db) and table \<open>pois\<close> (pois.py, init_db). Text is
  stored in a TEXT column as it is, and an integer in the INTEGER column as it is. The
  columns \<open>lat\<close> and \<open>lon\<close> have REAL affinity, so the text of a coordinate is stored as
  the number it denotes; a row keeps the text, which stands for that number: a
  coordinate is only handed on to the LocationIQ request.
\<close>

record stop_row =
  s_id :: nat
  s_stop_type :: string
  s_stop_id :: sqltext
  s_name :: sqltext
  s_lat :: sqltext
  s_lon :: sqltext

record poi_row =
  p_id :: nat
  p_stop_id :: nat
  p_distance :: "int option"
  p_category :: sqltext
  p_name :: sqltext

record db =
  stops :: "stop_row list"
  pois :: "poi_row list"

text \<open>INTEGER PRIMARY KEY AUTOINCREMENT: one more than the largest id used so far.\<close>

definition next_id :: "nat list \<Rightarrow> nat" where
  "next_id ids = Suc (fold max ids 0)"

section \<open>The HTTP collaborator\<close>

text \<open>
  A response of the requests library: its status code and what \<open>r.json()\<close> does,
  which is to return the decoded body or to raise when the body is not JSON.
\<close>

datatype py_error = JSONDecodeError | OverflowError

record 'a response =
  status_code :: int
  json :: "py_error + 'a"

section \<open>septa.py\<close>

definition BATCH_SIZE :: nat where
  "BATCH_SIZE = 25"

definition STOP_TYPES :: "string list" where
  "STOP_TYPES = [''bus_stops'', ''trolley_stops'', ''rail_stations'']"

text \<open>
  \<open>fetch_septa_stops\<close>: the parameter \<open>requests_get\<close> is the answer of the SEPTA
  server to a request for a stop type (centre and radius are constants of the module).
\<close>

definition fetch_septa_stops ::
  "(string \<Rightarrow> septa_rec list response) \<Rightarrow> string \<Rightarrow> py_error + septa_rec list" where
  "fetch_septa_stops requests_get stop_type =
     (let r = requests_get stop_type
      in if status_code r = 200 then json r else Inr [])"

text \<open>\<open>SELECT 1 FROM stops WHERE stop_type=? AND stop_id=?\<close> returns a row.\<close>

definition stop_exists :: "db \<Rightarrow> string \<Rightarrow> sqltext \<Rightarrow> bool" where
  "stop_exists d stype stop_id =
     list_ex (\<lambda>r. s_stop_type r = stype \<and> sql_eq (s_stop_id r) stop_id) (stops d)"

text \<open>\<open>INSERT INTO stops (stop_type, stop_id, name, lat, lon) VALUES (?,?,?,?,?)\<close>.\<close>

definition insert_stop :: "db \<Rightarrow> string \<Rightarrow> sqltext \<Rightarrow> sqltext \<Rightarrow> sqltext \<Rightarrow> sqltext \<Rightarrow> db" where
  "insert_stop d stype stop_id name lat lon =
     d\<lparr>stops := stops d @
        [\<lparr>s_id = next_id (map s_id (stops d)), s_stop_type = stype, s_stop_id = stop_id,
          s_name = name, s_lat = lat, s_lon = lon\<rparr>]\<rparr>"

text \<open>
  The inner \<open>while len(beeg_data[stype]) > 0\<close> loop on the candidates of one stop type.
  It returns the candidates left, the store, and whether it left through the \<open>break\<close>
  after an insertion. A candidate already stored is popped and the loop goes on; when
  the list runs empty this way the loop ends with nothing inserted.
\<close>

fun scan_candidates :: "string \<Rightarrow> septa_rec list \<Rightarrow> db \<Rightarrow> septa_rec list \<times> db \<times> bool" where
  "scan_candidates stype [] d = ([], d, False)"
| "scan_candidates stype (c # cs) d =
     (let stop_id = location_id c;
          name = location_name c;
          lat = location_lat c;
          lon = location_lon c
      in if \<not> stop_exists d stype stop_id
         then (cs, insert_stop d stype stop_id name lat lon, True)
         else scan_candidates stype cs d)"

text \<open>
  The state of the outer loop. \<open>beeg_data\<close> is a Python dict, which keeps its keys in
  insertion order: an association list with distinct keys.
\<close>

record sstate =
  conn :: db
  beeg_data :: "(string \<times> septa_rec list) list"
  num_inserted :: nat

text \<open>
  One pass through the body of the outer loop, entered with a non-empty \<open>beeg_data\<close>.
  The key is popped from the dict only on the insertion branch (lines 103-104).
\<close>

definition septa_body :: "sstate \<Rightarrow> sstate" where
  "septa_body s =
     (let item_num = num_inserted s mod length (beeg_data s);
          stype = fst (beeg_data s ! item_num);
          r = scan_candidates stype (snd (beeg_data s ! item_num)) (conn s);
          rest = fst r; d = fst (snd r); inserted = snd (snd r)
      in if inserted
         then s\<lparr>conn := d,
                beeg_data := (if length rest = 0 then AList.delete stype (beeg_data s)
                              else AList.update stype rest (beeg_data s)),
                num_inserted := num_inserted s + 1\<rparr>
         else s\<lparr>conn := d, beeg_data := AList.update stype rest (beeg_data s)\<rparr>)"

text \<open>
  The outer loop may run forever, so it is given fuel: \<open>Finished s\<close> when the loop was
  left in state \<open>s\<close>, \<open>OutOfFuel s\<close> when it is still running in state \<open>s\<close> after as
  many passes as there was fuel. The batch cap is a parameter; the module fixes it to
  \<open>BATCH_SIZE\<close>.
\<close>

datatype 'a fuelled = Finished 'a | OutOfFuel 'a

fun septa_while :: "nat \<Rightarrow> nat \<Rightarrow> sstate \<Rightarrow> sstate fuelled" where
  "septa_while cap 0 s = OutOfFuel s"
| "septa_while cap (Suc fuel) s =
     (if num_inserted s < cap \<or> length (beeg_data s) = 0
      then if length (beeg_data s) = 0 then Finished s
           else septa_while cap fuel (septa_body s)
      else Finished s)"

text \<open>
  \<open>store_septa_stops\<close>. The function has no \<open>return\<close> statement: when it returns, its
  value is \<open>None\<close>. An exception of a fetch leaves before anything is stored.
\<close>

datatype outcome = Returned db "nat option" | Raised py_error | Running db

definition septa_start ::
  "db \<Rightarrow> septa_rec list \<Rightarrow> septa_rec list \<Rightarrow> septa_rec list \<Rightarrow> sstate" where
  "septa_start d bus trolley rail =
     \<lparr>conn = d,
      beeg_data = [(STOP_TYPES ! 0, bus), (STOP_TYPES ! 1, trolley), (STOP_TYPES ! 2, rail)],
      num_inserted = 0\<rparr>"

definition store_septa_stops_cap ::
  "nat \<Rightarrow> nat \<Rightarrow> (string \<Rightarrow> septa_rec list response) \<Rightarrow> db \<Rightarrow> outcome" where
  "store_septa_stops_cap cap fuel requests_get d =
     (case fetch_septa_stops requests_get ''bus_stops'' of
        Inl e \<Rightarrow> Raised e
      | Inr bus \<Rightarrow>
     (case fetch_septa_stops requests_get ''trolley_stops'' of
        Inl e \<Rightarrow> Raised e
      | Inr trolley \<Rightarrow>
     (case fetch_septa_stops requests_get ''rail_stations'' of
        Inl e \<Rightarrow> Raised e
      | Inr rail \<Rightarrow>
     (case septa_while cap fuel (septa_start d bus trolley rail) of
        Finished s \<Rightarrow> Returned (conn s) None
      | OutOfFuel s \<Rightarrow> Running (conn s)))))"

definition store_septa_stops ::
  "nat \<Rightarrow> (string \<Rightarrow> septa_rec list response) \<Rightarrow> db \<Rightarrow> outcome" where
  "store_septa_stops = store_septa_stops_cap BATCH_SIZE"

section \<open>pois.py\<close>

definition POI_RADII :: "int list" where
  "POI_RADII = [416, 833, 1250]"

text \<open>
  \<open>fetch_locationiq_pois\<close>: \<open>requests_get\<close> is the answer of LocationIQ to a search
  around a coordinate. The bare \<open>except\<close> turns a failing \<open>r.json()\<close> into \<open>[]\<close>.
\<close>

definition fetch_locationiq_pois ::
  "(sqltext \<Rightarrow> sqltext \<Rightarrow> int \<Rightarrow> poi_rec list response) \<Rightarrow> sqltext \<Rightarrow> sqltext \<Rightarrow> int \<Rightarrow> poi_rec list" where
  "fetch_locationiq_pois requests_get lat lon radius =
     (let r = requests_get lat lon radius
      in if status_code r = 200
         then (case json r of Inr data \<Rightarrow> data | Inl e \<Rightarrow> [])
         else [])"

text \<open>\<open>SELECT * FROM pois WHERE stop_id=? AND distance=? AND category=? AND name=?\<close>.\<close>

definition select_pois :: "db \<Rightarrow> nat \<Rightarrow> int option \<Rightarrow> sqltext \<Rightarrow> sqltext \<Rightarrow> poi_row list" where
  "select_pois d stop_id pdist pcat pname =
     filter (\<lambda>p. p_stop_id p = stop_id \<and> sql_eq (p_distance p) pdist \<and>
                 sql_eq (p_category p) pcat \<and> sql_eq (p_name p) pname) (pois d)"

text \<open>\<open>INSERT INTO pois (stop_id, distance, name, category) VALUES (?,?,?,?)\<close>.\<close>

definition insert_poi :: "db \<Rightarrow> nat \<Rightarrow> int option \<Rightarrow> sqltext \<Rightarrow> sqltext \<Rightarrow> db" where
  "insert_poi d stop_id pdist pname pcat =
     d\<lparr>pois := pois d @
        [\<lparr>p_id = next_id (map p_id (pois d)), p_stop_id = stop_id, p_distance = pdist,
          p_category = pcat, p_name = pname\<rparr>]\<rparr>"

text \<open>\<open>SELECT COUNT(*) FROM pois WHERE stop_id=?\<close>.\<close>

definition count_for_radius :: "db \<Rightarrow> nat \<Rightarrow> nat" where
  "count_for_radius d stop_id = length (filter (\<lambda>p. p_stop_id p = stop_id) (pois d))"

text \<open>
  The body of \<open>for pd in pois_data\<close> up to the insertion: the store afterwards and
  whether a row was inserted. The existence check binds the distance first, so a
  distance beyond 64 bits raises OverflowError there and nothing is stored.
\<close>

definition store_poi :: "nat \<Rightarrow> poi_rec \<Rightarrow> db \<Rightarrow> py_error + db \<times> bool" where
  "store_poi stop_id pd d =
     (let pdist = pd_distance pd;
          pname = get_or (pd_name pd) (Some ''Unknown Name'');
          pcat = get_or (pd_class pd) (Some ''Unknown Category'')
      in if \<not> bindable pdist then Inl OverflowError
         else if length (select_pois d stop_id pdist pcat pname) = 0
         then Inr (insert_poi d stop_id pdist pname pcat, True)
         else Inr (d, False))"

text \<open>
  \<open>for pd in pois_data\<close>, with its \<open>break\<close> when the cap is reached. The result is the
  store and the count reached, with the exception that ended the loop, if any: every
  insertion before it is committed.
\<close>

fun insert_pois ::
  "nat \<Rightarrow> nat \<Rightarrow> poi_rec list \<Rightarrow> db \<times> nat \<Rightarrow> (db \<times> nat) \<times> py_error option" where
  "insert_pois cap stop_id [] (d, inserted_count) = ((d, inserted_count), None)"
| "insert_pois cap stop_id (pd # pds) (d, inserted_count) =
     (case store_poi stop_id pd d of
        Inl e \<Rightarrow> ((d, inserted_count), Some e)
      | Inr (d', True) \<Rightarrow>
          if inserted_count + 1 \<ge> cap then ((d', inserted_count + 1), None)
          else insert_pois cap stop_id pds (d', inserted_count + 1)
      | Inr (d', False) \<Rightarrow> insert_pois cap stop_id pds (d', inserted_count))"

text \<open>\<open>for stop_id, slat, slon, n in all_stops\<close>, with its \<open>break\<close> at the top.\<close>

fun visit_stops ::
  "nat \<Rightarrow> (sqltext \<Rightarrow> sqltext \<Rightarrow> int \<Rightarrow> poi_rec list response) \<Rightarrow> (nat \<times> sqltext \<times> sqltext \<times> sqltext) list \<Rightarrow>
   db \<times> nat \<Rightarrow> (db \<times> nat) \<times> py_error option" where
  "visit_stops cap requests_get [] (d, inserted_count) = ((d, inserted_count), None)"
| "visit_stops cap requests_get ((stop_id, slat, slon, n) # rest) (d, inserted_count) =
     (if inserted_count \<ge> cap then ((d, inserted_count), None)
      else if count_for_radius d stop_id < 50
      then (case insert_pois cap stop_id
                   (fetch_locationiq_pois requests_get slat slon (POI_RADII ! 2))
                   (d, inserted_count) of
              (st, Some e) \<Rightarrow> (st, Some e)
            | (st, None) \<Rightarrow> visit_stops cap requests_get rest st)
      else visit_stops cap requests_get rest (d, inserted_count))"

text \<open>\<open>SELECT id, lat, lon, name FROM stops\<close>, in the order of the table.\<close>

definition select_all_stops :: "db \<Rightarrow> (nat \<times> sqltext \<times> sqltext \<times> sqltext) list" where
  "select_all_stops d = map (\<lambda>r. (s_id r, s_lat r, s_lon r, s_name r)) (stops d)"

text \<open>\<open>SELECT DISTINCT stop_id FROM pois ORDER BY stop_id DESC LIMIT 2\<close>.\<close>

definition pois_stop_ids :: "db \<Rightarrow> nat list" where
  "pois_stop_ids d = take 2 (rev (sort (remdups (map p_stop_id (pois d)))))"

definition second_to_last_stop_id :: "db \<Rightarrow> nat option" where
  "second_to_last_stop_id d =
     (if length (pois_stop_ids d) = 2 then Some (pois_stop_ids d ! 1) else None)"

text \<open>The list \<open>all_stops\<close> after the reordering of lines 100-107.\<close>

definition reordered_stops :: "db \<Rightarrow> (nat \<times> sqltext \<times> sqltext \<times> sqltext) list" where
  "reordered_stops d =
     (let all_stops = select_all_stops d
      in case second_to_last_stop_id d of
           None \<Rightarrow> all_stops
         | Some sid \<Rightarrow>
             (let indices = filter (\<lambda>i. fst (all_stops ! i) = sid) [0..<length all_stops]
              in if indices \<noteq> []
                 then (let start_index = indices ! 0
                       in drop start_index all_stops @ take start_index all_stops)
                 else all_stops))"

text \<open>
  \<open>store_pois\<close>: the store afterwards, with \<open>inserted_count\<close> when the function
  returns or the exception when it raises.
\<close>

definition store_pois_cap ::
  "nat \<Rightarrow> (sqltext \<Rightarrow> sqltext \<Rightarrow> int \<Rightarrow> poi_rec list response) \<Rightarrow> db \<Rightarrow> db \<times> (py_error + nat)" where
  "store_pois_cap cap requests_get d =
     (case visit_stops cap requests_get (reordered_stops d) (d, 0) of
        ((d', inserted_count), None) \<Rightarrow> (d', Inr inserted_count)
      | ((d', inserted_count), Some e) \<Rightarrow> (d', Inl e))"

definition store_pois ::
  "(sqltext \<Rightarrow> sqltext \<Rightarrow> int \<Rightarrow> poi_rec list response) \<Rightarrow> db \<Rightarrow> db \<times> (py_error + nat)" where
  "store_pois = store_pois_cap BATCH_SIZE"

section \<open>stats.py: calculate\_data\<close>

text \<open>
  The query of \<open>calculate_data\<close>: for every stop (one group per primary key, in the
  order of the table) the number of POI rows of that stop with \<open>distance <= radius\<close>.
\<close>

definition poi_count :: "db \<Rightarrow> int \<Rightarrow> nat \<Rightarrow> nat" where
  "poi_count d radius sid =
     length (filter (\<lambda>p. sid = p_stop_id p \<and> sql_le (p_distance p) radius) (pois d))"

definition joined_rows :: "db \<Rightarrow> int \<Rightarrow> (string \<times> sqltext \<times> nat) list" where
  "joined_rows d radius =
     map (\<lambda>s. (s_stop_type s, s_name s, poi_count d radius (s_id s))) (stops d)"

text \<open>
  The bodies of the two loops of \<open>calculate_data\<close> that fill \<open>data_by_type\<close> (lines
  93-96) and \<open>unique_dict\<close> (lines 102-105).
\<close>

definition add_row ::
  "string \<times> sqltext \<times> nat \<Rightarrow> (string \<times> (sqltext \<times> nat) list) list \<Rightarrow>
   (string \<times> (sqltext \<times> nat) list) list" where
  "add_row = (\<lambda>(stop_type, name, cnt) data_by_type.
     AList.update stop_type
       ((case map_of data_by_type stop_type of None \<Rightarrow> [] | Some l \<Rightarrow> l) @ [(name, cnt)])
       data_by_type)"

definition keep_max :: "sqltext \<times> nat \<Rightarrow> (sqltext \<times> nat) list \<Rightarrow> (sqltext \<times> nat) list" where
  "keep_max = (\<lambda>(name, cnt) u.
     (case map_of u name of
        None \<Rightarrow> AList.update name cnt u
      | Some c \<Rightarrow> if cnt > c then AList.update name cnt u else u))"

text \<open>\<open>data_by_type\<close> after the first loop: the rows grouped by stop type.\<close>

definition group_by_type :: "(string \<times> sqltext \<times> nat) list \<Rightarrow> (string \<times> (sqltext \<times> nat) list) list" where
  "group_by_type rows = fold add_row rows []"

text \<open>\<open>unique_dict\<close> of one stop type, as the list of its items.\<close>

definition unique_dict :: "(sqltext \<times> nat) list \<Rightarrow> (sqltext \<times> nat) list" where
  "unique_dict stops_list = fold keep_max stops_list []"

text \<open>\<open>data_by_type\<close> after deduplication and the stable ascending sort by count.\<close>

definition data_by_type :: "db \<Rightarrow> int \<Rightarrow> (string \<times> (sqltext \<times> nat) list) list" where
  "data_by_type d radius =
     map (\<lambda>(stype, stops_list). (stype, sort_key snd (unique_dict stops_list)))
         (group_by_type (joined_rows d radius))"

text \<open>\<open>data_by_type.get(stype, [])\<close>.\<close>

definition stops_list_of :: "db \<Rightarrow> int \<Rightarrow> string \<Rightarrow> (sqltext \<times> nat) list" where
  "stops_list_of d radius stype =
     (case map_of (data_by_type d radius) stype of None \<Rightarrow> [] | Some l \<Rightarrow> l)"

section \<open>Notions used in the statements\<close>

subsection \<open>The stop batcher\<close>

text \<open>The natural key of a stop row, the pair of the UNIQUE constraint.\<close>

definition natural_key :: "stop_row \<Rightarrow> string \<times> sqltext" where
  "natural_key r = (s_stop_type r, s_stop_id r)"

text \<open>
  \<open>fresh_inserts old ins\<close>: every row of \<open>ins\<close> that has a stop id carries a natural
  key that neither \<open>old\<close> nor an earlier row of \<open>ins\<close> carries.
\<close>

fun fresh_inserts :: "stop_row list \<Rightarrow> stop_row list \<Rightarrow> bool" where
  "fresh_inserts old [] = True"
| "fresh_inserts old (r # rs) =
     ((s_stop_id r = None \<or> natural_key r \<notin> set (map natural_key old)) \<and>
      fresh_inserts (old @ [r]) rs)"

text \<open>The invariant of the outer loop of \<open>store_septa_stops\<close>, started on store \<open>d0\<close>.\<close>

definition septa_inv :: "db \<Rightarrow> nat \<Rightarrow> sstate \<Rightarrow> bool" where
  "septa_inv d0 cap s =
     (\<exists>ins. stops (conn s) = stops d0 @ ins \<and> pois (conn s) = pois d0 \<and>
            length ins = num_inserted s \<and> num_inserted s \<le> cap \<and>
            fresh_inserts (stops d0) ins)"

fun state_of :: "'a fuelled \<Rightarrow> 'a" where
  "state_of (Finished s) = s"
| "state_of (OutOfFuel s) = s"

text \<open>The store after the insertion of a candidate of a stop type (lines 89-98).\<close>

definition insert_candidate :: "db \<Rightarrow> string \<times> septa_rec \<Rightarrow> db" where
  "insert_candidate d tc =
     insert_stop d (fst tc) (location_id (snd tc)) (location_name (snd tc))
       (location_lat (snd tc)) (location_lon (snd tc))"

text \<open>
  All candidates of a listing are new to each other: the candidates that have an id
  have different ids. (A candidate without an id is new to any store.)
\<close>

definition distinct_ids :: "septa_rec list \<Rightarrow> bool" where
  "distinct_ids cs = distinct (filter (\<lambda>i. i \<noteq> None) (map location_id cs))"

text \<open>
  The rotation as the specification words it: one candidate of the first category, then
  of the second, then of the third, then of the first again, a category leaving the
  rotation when its listing is exhausted, up to the batch cap.
\<close>

definition round_robin :: "nat \<Rightarrow> (string \<times> septa_rec list) list \<Rightarrow> (string \<times> sqltext) list" where
  "round_robin cap listings =
     take cap (concat (transpose
       (map (\<lambda>(stype, cs). map (\<lambda>c. (stype, location_id c)) cs) listings)))"

subsection \<open>The POI batcher\<close>

text \<open>\<open>extends d d'\<close>: the store \<open>d'\<close> is \<open>d\<close> with POI rows appended.\<close>

definition extends :: "db \<Rightarrow> db \<Rightarrow> bool" where
  "extends d d' = (stops d' = stops d \<and> (\<exists>more. pois d' = pois d @ more))"

text \<open>The POI rows appended to \<open>d\<close> in \<open>d'\<close>.\<close>

definition new_rows :: "db \<Rightarrow> db \<Rightarrow> poi_row list" where
  "new_rows d d' = drop (length (pois d)) (pois d')"

text \<open>
  A record is new for a stop when the existence check of \<open>store_pois\<close> finds no row
  for it.
\<close>

definition is_new :: "db \<Rightarrow> nat \<Rightarrow> poi_rec \<Rightarrow> bool" where
  "is_new d stop_id pd =
     (select_pois d stop_id (pd_distance pd) (get_or (pd_class pd) (Some ''Unknown Category''))
        (get_or (pd_name pd) (Some ''Unknown Name'')) = [])"

text \<open>A record whose natural key (distance, category, name, after the defaults) has no NULL.\<close>

definition keyed :: "poi_rec \<Rightarrow> bool" where
  "keyed pd = (pd_distance pd \<noteq> None \<and> get_or (pd_name pd) (Some ''Unknown Name'') \<noteq> None \<and>
               get_or (pd_class pd) (Some ''Unknown Category'') \<noteq> None)"

text \<open>
  Nothing is left to fetch for a stop: it is saturated, or every keyed record of its
  response passes for stored.
\<close>

definition done_with ::
  "(sqltext \<Rightarrow> sqltext \<Rightarrow> int \<Rightarrow> poi_rec list response) \<Rightarrow> db \<Rightarrow> nat \<times> sqltext \<times> sqltext \<times> sqltext \<Rightarrow> bool" where
  "done_with requests_get d stop =
     (case stop of (stop_id, slat, slon, n) \<Rightarrow>
        count_for_radius d stop_id \<ge> 50 \<or>
        (\<forall>pd \<in> set (fetch_locationiq_pois requests_get slat slon (POI_RADII ! 2)).
           keyed pd \<longrightarrow> \<not> is_new d stop_id pd))"

text \<open>
  The row that a record without a distance gets: NULL distance, name and category the
  record's or the sentinels.
\<close>

definition null_row_of :: "nat \<Rightarrow> poi_rec \<Rightarrow> poi_row \<Rightarrow> bool" where
  "null_row_of stop_id pd row =
     (p_stop_id row = stop_id \<and> p_distance row = None \<and>
      p_name row = get_or (pd_name pd) (Some ''Unknown Name'') \<and>
      p_category row = get_or (pd_class pd) (Some ''Unknown Category''))"

text \<open>
  For a stop, between the stores \<open>d\<close> and \<open>d'\<close>: the stop is saturated in \<open>d'\<close>, or every
  record without a distance of its response has its row among the rows appended.
\<close>

definition nulls_stored ::
  "(sqltext \<Rightarrow> sqltext \<Rightarrow> int \<Rightarrow> poi_rec list response) \<Rightarrow> db \<Rightarrow> db \<Rightarrow> nat \<times> sqltext \<times> sqltext \<times> sqltext \<Rightarrow> bool" where
  "nulls_stored requests_get d d' stop =
     (case stop of (stop_id, slat, slon, n) \<Rightarrow>
        count_for_radius d' stop_id \<ge> 50 \<or>
        (\<forall>pd \<in> set (fetch_locationiq_pois requests_get slat slon (POI_RADII ! 2)).
           pd_distance pd = None \<longrightarrow> (\<exists>row \<in> set (new_rows d d'). null_row_of stop_id pd row)))"



text \<open>
  The stops of the POI store from the most recently touched one, as the specification
  words the resumption policy: the rows are in insertion order.
\<close>

definition touched_order :: "db \<Rightarrow> nat list" where
  "touched_order d = rev (remdups (map p_stop_id (pois d)))"

definition second_most_recently_touched :: "db \<Rightarrow> nat option" where
  "second_most_recently_touched d =
     (if length (touched_order d) \<ge> 2 then Some (touched_order d ! 1) else None)"

subsection \<open>The aggregator\<close>

text \<open>The (name, count) pairs of the stops of one type, in the order of the table.\<close>

definition entries_of :: "db \<Rightarrow> int \<Rightarrow> string \<Rightarrow> (sqltext \<times> nat) list" where
  "entries_of d radius stype =
     map (\<lambda>s. (s_name s, poi_count d radius (s_id s)))
         (filter (\<lambda>s. s_stop_type s = stype) (stops d))"

section \<open>Example inputs\<close>

definition empty_db :: db where
  "empty_db = \<lparr>stops = [], pois = []\<rparr>"

definition ok :: "'a \<Rightarrow> 'a response" where
  "ok body = \<lparr>status_code = 200, json = Inr body\<rparr>"

definition unparsable :: "'a response" where
  "unparsable = \<lparr>status_code = 200, json = Inl JSONDecodeError\<rparr>"

text \<open>A SEPTA server that answers 200 with one listing per stop type.\<close>

definition by_type :: "'a \<Rightarrow> 'a \<Rightarrow> 'a \<Rightarrow> string \<Rightarrow> 'a response" where
  "by_type bus trolley rail t =
     (if t = ''bus_stops'' then ok bus else if t = ''trolley_stops'' then ok trolley else ok rail)"

definition stop_rec :: "string \<Rightarrow> septa_rec" where
  "stop_rec i =
     \<lparr>location_id = Some i, location_name = Some (''Stop '' @ i), location_lat = None,
      location_lon = None\<rparr>"

definition stored :: "nat \<Rightarrow> string \<Rightarrow> sqltext \<Rightarrow> sqltext \<Rightarrow> stop_row" where
  "stored i stype sid name =
     \<lparr>s_id = i, s_stop_type = stype, s_stop_id = sid, s_name = name, s_lat = None, s_lon = None\<rparr>"

text \<open>One stop of each type, and the store after one run on them from the empty store.\<close>

definition one_each :: "string \<Rightarrow> septa_rec list response" where
  "one_each = by_type [stop_rec ''10''] [stop_rec ''20''] [stop_rec ''30'']"

definition db_one_each :: db where
  "db_one_each =
     \<lparr>stops = [stored 1 ''bus_stops'' (Some ''10'') (Some ''Stop 10''),
               stored 2 ''rail_stations'' (Some ''30'') (Some ''Stop 30''),
               stored 3 ''trolley_stops'' (Some ''20'') (Some ''Stop 20'')],
      pois = []\<rparr>"

text \<open>The loop state of the second run on \<open>one_each\<close> after its first pass.\<close>

definition stuck_state :: sstate where
  "stuck_state =
     \<lparr>conn = db_one_each,
      beeg_data = [(''bus_stops'', []), (''trolley_stops'', [stop_rec ''20'']),
                   (''rail_stations'', [stop_rec ''30''])],
      num_inserted = 0\<rparr>"





text \<open>
  Listings of sizes 10, 1 and 10, all candidates new, and the store after a run with a
  batch cap of 6.
\<close>

definition ten :: "string \<Rightarrow> septa_rec list" where
  "ten p = map (\<lambda>i. stop_rec (p @ i))
             [''0'', ''1'', ''2'', ''3'', ''4'', ''5'', ''6'', ''7'', ''8'', ''9'']"

definition ten_one_ten :: "string \<Rightarrow> septa_rec list response" where
  "ten_one_ten = by_type (ten ''b'') [stop_rec ''t0''] (ten ''r'')"

definition db_ten_one_ten :: db where
  "db_ten_one_ten =
     \<lparr>stops = [stored 1 ''bus_stops'' (Some ''b0'') (Some ''Stop b0''),
               stored 2 ''trolley_stops'' (Some ''t0'') (Some ''Stop t0''),
               stored 3 ''bus_stops'' (Some ''b1'') (Some ''Stop b1''),
               stored 4 ''rail_stations'' (Some ''r0'') (Some ''Stop r0''),
               stored 5 ''bus_stops'' (Some ''b2'') (Some ''Stop b2''),
               stored 6 ''rail_stations'' (Some ''r1'') (Some ''Stop r1'')],
      pois = []\<rparr>"

text \<open>Stops, ATM records and a LocationIQ server that answers 200 by latitude.\<close>

definition stop_at :: "nat \<Rightarrow> string \<Rightarrow> stop_row" where
  "stop_at i lat =
     \<lparr>s_id = i, s_stop_type = ''bus_stops'', s_stop_id = Some lat, s_name = Some (''Stop '' @ lat),
      s_lat = Some lat, s_lon = Some ''-75.16''\<rparr>"

definition atm :: "int \<Rightarrow> string \<Rightarrow> poi_rec" where
  "atm dist n = \<lparr>pd_distance = Some dist, pd_name = Some (Some n), pd_class = Some (Some ''atm'')\<rparr>"

definition atm_row :: "nat \<Rightarrow> nat \<Rightarrow> int \<Rightarrow> string \<Rightarrow> poi_row" where
  "atm_row i sid dist n =
     \<lparr>p_id = i, p_stop_id = sid, p_distance = Some dist, p_category = Some ''atm'',
      p_name = Some n\<rparr>"

definition atms_at ::
  "(sqltext \<times> poi_rec list) list \<Rightarrow> sqltext \<Rightarrow> sqltext \<Rightarrow> int \<Rightarrow> poi_rec list response" where
  "atms_at table lat lon radius = ok (case map_of table lat of None \<Rightarrow> [] | Some l \<Rightarrow> l)"

definition db_one_stop :: db where
  "db_one_stop = \<lparr>stops = [stop_at 1 ''39.95''], pois = []\<rparr>"

text \<open>One stop whose response holds exactly 25 records, all new and with different distances.\<close>

definition twenty_five :: "poi_rec list" where
  "twenty_five = map (\<lambda>k. atm (int k) ''ATM'') [1..<26]"


text \<open>A record with neither distance nor category, alone and after 25 new records.\<close>

definition bare_atm :: poi_rec where
  "bare_atm = \<lparr>pd_distance = None, pd_name = Some (Some ''ATM''), pd_class = None\<rparr>"

definition no_distance :: "sqltext \<Rightarrow> sqltext \<Rightarrow> int \<Rightarrow> poi_rec list response" where
  "no_distance = atms_at [(Some ''39.95'', [bare_atm])]"

definition bare_after_cap :: "sqltext \<Rightarrow> sqltext \<Rightarrow> int \<Rightarrow> poi_rec list response" where
  "bare_after_cap = atms_at [(Some ''39.95'', twenty_five @ [bare_atm])]"

text \<open>A record whose distance does not fit in 64 bits.\<close>

definition far_atm :: poi_rec where
  "far_atm = atm (2 ^ 63) ''ATM''"

text \<open>
  Three stops with one ATM each on the first day; the next day a second ATM has opened
  near the first stop. \<open>db_wrapped\<close> is the store after a run on each day.
\<close>

definition db_three_stops :: db where
  "db_three_stops =
     \<lparr>stops = [stop_at 1 ''39.91'', stop_at 2 ''39.92'', stop_at 3 ''39.93''], pois = []\<rparr>"

definition first_day :: "sqltext \<Rightarrow> sqltext \<Rightarrow> int \<Rightarrow> poi_rec list response" where
  "first_day = atms_at [(Some ''39.91'', [atm 100 ''A'']), (Some ''39.92'', [atm 200 ''B'']),
                        (Some ''39.93'', [atm 300 ''C''])]"

definition next_day :: "sqltext \<Rightarrow> sqltext \<Rightarrow> int \<Rightarrow> poi_rec list response" where
  "next_day = atms_at [(Some ''39.91'', [atm 100 ''A'', atm 150 ''A2'']),
                       (Some ''39.92'', [atm 200 ''B'']), (Some ''39.93'', [atm 300 ''C''])]"

definition db_wrapped :: db where
  "db_wrapped =
     \<lparr>stops = stops db_three_stops,
      pois = [atm_row 1 1 100 ''A'', atm_row 2 2 200 ''B'', atm_row 3 3 300 ''C'',
              atm_row 4 1 150 ''A2'']\<rparr>"

text \<open>Two bus stops named Main St with 2 and 7 ATMs within the first radius.\<close>

definition db_main_st :: db where
  "db_main_st =
     \<lparr>stops = [stored 1 ''bus_stops'' (Some ''10'') (Some ''Main St''),
               stored 2 ''bus_stops'' (Some ''11'') (Some ''Main St'')],
      pois = map (\<lambda>i. atm_row i 1 (100 + int i) ''ATM'') [1..<3] @
             map (\<lambda>i. atm_row i 2 (100 + int i) ''ATM'') [3..<10]\<rparr>"

section \<open>The fetchers\<close>

lemma fetch_septa_stops_non_200:
  "status_code (requests_get stop_type) \<noteq> 200 \<Longrightarrow>
     fetch_septa_stops requests_get stop_type = Inr []"
  by (simp add: fetch_septa_stops_def)

lemma fetch_locationiq_pois_non_200:
  "status_code (requests_get lat lon radius) \<noteq> 200 \<Longrightarrow>
     fetch_locationiq_pois requests_get lat lon radius = []"
  by (simp add: fetch_locationiq_pois_def)

lemma fetch_locationiq_pois_unparsable:
  "json (requests_get lat lon radius) = Inl e \<Longrightarrow>
     fetch_locationiq_pois requests_get lat lon radius = []"
  by (simp add: fetch_locationiq_pois_def Let_def)

text \<open>
  Claim C7. A 200 response whose body cannot be parsed should give an empty listing in
  both fetchers. \<open>fetch_locationiq_pois\<close> does so (the two lemmas above, with the one
  for a non-200 status of \<open>fetch_septa_stops\<close>), but \<open>fetch_septa_stops\<close> calls
  \<open>r.json()\<close> unguarded: on such a response the decoding error leaves the fetcher and
  then \<open>store_septa_stops\<close>, whatever the store and however long the loop could run.
\<close>

theorem fetch_septa_stops_unparsable_raises:
  "fetch_septa_stops (\<lambda>t. unparsable) ''bus_stops'' = Inl JSONDecodeError \<and>
   store_septa_stops fuel (\<lambda>t. unparsable) d = Raised JSONDecodeError"
  by (simp add: fetch_septa_stops_def unparsable_def store_septa_stops_def
      store_septa_stops_cap_def)

section \<open>The stop batcher\<close>

lemma fresh_inserts_append:
  "fresh_inserts old (xs @ ys) = (fresh_inserts old xs \<and> fresh_inserts (old @ xs) ys)"
  by (induction xs arbitrary: old) auto


lemma stop_exists_key:
  "\<not> stop_exists d stype sid \<Longrightarrow> sid \<noteq> None \<Longrightarrow>
     (stype, sid) \<notin> set (map natural_key (stops d))"
  by (auto simp: stop_exists_def list_ex_iff sql_eq_def natural_key_def)

text \<open>
  The inner loop either inserts nothing and empties the list, or appends exactly one
  row, whose natural key (when it has a stop id) was not in the store.
\<close>

lemma scan_candidates_result:
  "scan_candidates stype cs d = (rest, d', ins) \<Longrightarrow>
     (\<not> ins \<and> d' = d \<and> rest = []) \<or>
     (ins \<and> length rest < length cs \<and>
      (\<exists>r. stops d' = stops d @ [r] \<and> pois d' = pois d \<and> s_stop_type r = stype \<and>
           (s_stop_id r = None \<or> natural_key r \<notin> set (map natural_key (stops d)))))"
proof (induction cs)
  case Nil
  then show ?case by simp
next
  case (Cons c cs)
  show ?case
  proof (cases "stop_exists d stype (location_id c)")
    case True
    with Cons show ?thesis by (auto simp: Let_def)
  next
    case False
    with Cons.prems have "ins" and "rest = cs"
      and d': "d' = insert_stop d stype (location_id c) (location_name c)
                     (location_lat c) (location_lon c)"
      by (auto simp: Let_def)
    moreover from False
    have "location_id c = None \<or>
          (stype, location_id c) \<notin> set (map natural_key (stops d))"
      using stop_exists_key by blast
    ultimately show ?thesis
      by (auto simp: insert_stop_def natural_key_def)
  qed
qed

lemma septa_body_inv:
  assumes "septa_inv d0 cap s" and "num_inserted s < cap"
  shows "septa_inv d0 cap (septa_body s)"
proof -
  from assms(1) obtain ins where
    i: "stops (conn s) = stops d0 @ ins" "pois (conn s) = pois d0"
       "length ins = num_inserted s" "fresh_inserts (stops d0) ins"
    by (auto simp: septa_inv_def)
  define i_n where "i_n = num_inserted s mod length (beeg_data s)"
  define stype where "stype = fst (beeg_data s ! i_n)"
  obtain rest d' b where
    r: "scan_candidates stype (snd (beeg_data s ! i_n)) (conn s) = (rest, d', b)"
    by (cases "scan_candidates stype (snd (beeg_data s ! i_n)) (conn s)") auto
  show ?thesis
  proof (cases b)
    case False
    with scan_candidates_result [OF r] have "d' = conn s" by auto
    with False r assms i show ?thesis
      by (auto simp: septa_body_def Let_def septa_inv_def i_n_def stype_def)
  next
    case True
    with scan_candidates_result [OF r] obtain row where
      row: "stops d' = stops (conn s) @ [row]" "pois d' = pois (conn s)"
        "s_stop_id row = None \<or> natural_key row \<notin> set (map natural_key (stops (conn s)))"
      by auto
    have "fresh_inserts (stops d0) (ins @ [row])"
      using i row by (simp add: fresh_inserts_append)
    with True r assms(2) i row show ?thesis
      by (auto simp: septa_body_def Let_def septa_inv_def i_n_def stype_def)
  qed
qed

lemma septa_while_inv:
  "septa_inv d0 cap s \<Longrightarrow> septa_inv d0 cap (state_of (septa_while cap fuel s))"
proof (induction fuel arbitrary: s)
  case 0
  then show ?case by simp
next
  case (Suc fuel)
  show ?case
  proof (cases "beeg_data s = [] \<or> \<not> num_inserted s < cap")
    case True
    with Suc.prems show ?thesis by auto
  next
    case False
    then have "septa_inv d0 cap (septa_body s)"
      using septa_body_inv Suc.prems by blast
    from Suc.IH [OF this] False show ?thesis by simp
  qed
qed

lemma septa_start_inv: "septa_inv d cap (septa_start d bus trolley rail)"
  by (simp add: septa_inv_def septa_start_def)

text \<open>A pass that changes nothing below the cap is repeated for ever.\<close>

lemma septa_while_stuck:
  "septa_body s = s \<Longrightarrow> num_inserted s < cap \<Longrightarrow> beeg_data s \<noteq> [] \<Longrightarrow>
     septa_while cap fuel s = OutOfFuel s"
  by (induction fuel) auto

lemma fetch_one_each:
  "fetch_septa_stops one_each ''bus_stops'' = Inr [stop_rec ''10'']"
  "fetch_septa_stops one_each ''trolley_stops'' = Inr [stop_rec ''20'']"
  "fetch_septa_stops one_each ''rail_stations'' = Inr [stop_rec ''30'']"
  by (simp_all add: fetch_septa_stops_def one_each_def by_type_def ok_def)

lemma septa_body_one_each_first:
  "septa_body (septa_start db_one_each [stop_rec ''10''] [stop_rec ''20''] [stop_rec ''30''])
     = stuck_state"
  by code_simp

lemma septa_body_stuck_state: "septa_body stuck_state = stuck_state"
  by code_simp

text \<open>
  Claim C1. Every invocation of \<open>store_septa_stops\<close> should terminate, also when the
  candidates left in a listing are all stored already. It does not: the first run on
  one stop per type, from the empty store, returns after four tests of the loop
  condition; the second run on the same responses pops the stored bus stop as a
  duplicate, keeps the emptied \<open>bus_stops\<close> key in the dict, selects it again on every
  pass, and is still running whatever fuel it is given.
\<close>

theorem store_septa_stops_second_run_never_returns:
  "store_septa_stops 4 one_each empty_db = Returned db_one_each None \<and>
   (\<forall>fuel. store_septa_stops fuel one_each db_one_each = Running db_one_each)"
proof
  show "store_septa_stops 4 one_each empty_db = Returned db_one_each None"
    by code_simp
next
  let ?s0 = "septa_start db_one_each [stop_rec ''10''] [stop_rec ''20''] [stop_rec ''30'']"
  have stuck: "septa_while BATCH_SIZE n stuck_state = OutOfFuel stuck_state" for n
    by (rule septa_while_stuck [OF septa_body_stuck_state])
       (simp_all add: stuck_state_def BATCH_SIZE_def)
  have spin: "\<exists>s. septa_while BATCH_SIZE fuel ?s0 = OutOfFuel s \<and> conn s = db_one_each"
    for fuel
  proof (cases fuel)
    case 0
    then show ?thesis by (simp add: septa_start_def)
  next
    case (Suc n)
    then show ?thesis
      using stuck [of n] septa_body_one_each_first
      by (simp add: septa_start_def BATCH_SIZE_def stuck_state_def)
  qed
  show "\<forall>fuel. store_septa_stops fuel one_each db_one_each = Running db_one_each"
  proof
    fix fuel
    from spin [of fuel] obtain s where
      "septa_while BATCH_SIZE fuel ?s0 = OutOfFuel s" and "conn s = db_one_each"
      by blast
    then show "store_septa_stops fuel one_each db_one_each = Running db_one_each"
      by (simp add: store_septa_stops_def store_septa_stops_cap_def fetch_one_each)
  qed
qed

text \<open>
  More fuel does not change the result of a loop that has exited.
\<close>

lemma septa_while_more_fuel:
  "septa_while cap n s = Finished s' \<Longrightarrow> septa_while cap (n + k) s = Finished s'"
  by (induction n arbitrary: s) (auto split: if_splits)

text \<open>
  Whatever the fuel, a run has appended at most \<open>cap\<close> rows to the stop table, each
  with a natural key that was not stored when it was inserted (or without a stop id),
  and has left the POI table alone.
\<close>

lemma store_septa_stops_cap_result:
  assumes "store_septa_stops_cap cap fuel api d = Returned d' r \<or>
           store_septa_stops_cap cap fuel api d = Running d'"
  shows "\<exists>ins. stops d' = stops d @ ins \<and> pois d' = pois d \<and> length ins \<le> cap \<and>
               fresh_inserts (stops d) ins"
proof -
  have c: "(case w of Finished s \<Rightarrow> Returned (conn s) None | OutOfFuel s \<Rightarrow> Running (conn s))
             = Returned d' r \<or>
           (case w of Finished s \<Rightarrow> Returned (conn s) None | OutOfFuel s \<Rightarrow> Running (conn s))
             = Running d' \<Longrightarrow> d' = conn (state_of w)" for w
    by (cases w) auto
  from assms have "\<exists>bus trolley rail.
      d' = conn (state_of (septa_while cap fuel (septa_start d bus trolley rail)))"
    unfolding store_septa_stops_cap_def
    by (auto split: sum.splits dest!: c)
  then obtain bus trolley rail where
    "d' = conn (state_of (septa_while cap fuel (septa_start d bus trolley rail)))"
    by blast
  moreover have "septa_inv d cap (state_of (septa_while cap fuel (septa_start d bus trolley rail)))"
    by (rule septa_while_inv [OF septa_start_inv])
  ultimately show ?thesis
    by (auto simp: septa_inv_def)
qed




text \<open>
  Claim C9, as amended. \<open>store_septa_stops\<close> returns no count: it has no \<open>return\<close>
  statement, so the value of a call that returns is \<open>None\<close>. The counter it keeps,
  \<open>num_inserted\<close>, equals the number of stop rows inserted when the loop exits.
\<close>

theorem store_septa_stops_counts_internally:
  "(store_septa_stops fuel requests_get d = Returned d' r \<longrightarrow> r = None) \<and>
   (septa_while BATCH_SIZE fuel (septa_start d bus trolley rail) = Finished s \<longrightarrow>
      length (stops (conn s)) = length (stops d) + num_inserted s)"
proof
  show "store_septa_stops fuel requests_get d = Returned d' r \<longrightarrow> r = None"
    by (auto simp: store_septa_stops_def store_septa_stops_cap_def
        split: sum.splits fuelled.splits)
next
  have "septa_inv d BATCH_SIZE
          (state_of (septa_while BATCH_SIZE fuel (septa_start d bus trolley rail)))"
    by (rule septa_while_inv [OF septa_start_inv])
  then show "septa_while BATCH_SIZE fuel (septa_start d bus trolley rail) = Finished s \<longrightarrow>
      length (stops (conn s)) = length (stops d) + num_inserted s"
    by (auto simp: septa_inv_def)
qed

text \<open>
  On \<open>one_each\<close> the loop exits with the counter at 3, the number of rows inserted.
\<close>

theorem store_septa_stops_counts_internally_witness:
  "store_septa_stops 4 one_each empty_db = Returned db_one_each None \<and>
   (case septa_while BATCH_SIZE 4
           (septa_start empty_db [stop_rec ''10''] [stop_rec ''20''] [stop_rec ''30'']) of
      Finished s \<Rightarrow> num_inserted s = 3 \<and>
                    length (stops (conn s)) = length (stops empty_db) + num_inserted s
    | OutOfFuel s \<Rightarrow> False)"
proof -
  have 1: "store_septa_stops 4 one_each empty_db = Returned db_one_each None"
    by code_simp
  have 2: "(case septa_while BATCH_SIZE 4
           (septa_start empty_db [stop_rec ''10''] [stop_rec ''20''] [stop_rec ''30'']) of
      Finished s \<Rightarrow> num_inserted s = 3 | OutOfFuel s \<Rightarrow> False)"
    by code_simp
  then obtain s where s: "septa_while BATCH_SIZE 4
           (septa_start empty_db [stop_rec ''10''] [stop_rec ''20''] [stop_rec ''30''])
           = Finished s" and n: "num_inserted s = 3"
    by (auto split: fuelled.splits)
  from store_septa_stops_counts_internally
    [of 4 one_each empty_db db_one_each None "[stop_rec ''10'']" "[stop_rec ''20'']"
        "[stop_rec ''30'']" s] s
  have "length (stops (conn s)) = length (stops empty_db) + num_inserted s" by blast
  with 1 s n show ?thesis by simp
qed

text \<open>
  Counterexample to claim C9 as stated: three rows are inserted and the call returns
  \<open>None\<close>, not 3.
\<close>

theorem store_septa_stops_returns_no_count:
  "store_septa_stops 4 one_each empty_db = Returned db_one_each None \<and>
   store_septa_stops 4 one_each empty_db \<noteq> Returned db_one_each (Some 3) \<and>
   length (stops db_one_each) = length (stops empty_db) + 3"
  by code_simp

text \<open>
  The inner loop on a listing whose first candidate is new: the candidate is inserted
  and popped, and the loop is left.
\<close>

lemma scan_candidates_new:
  "\<not> stop_exists d stype (location_id c) \<Longrightarrow>
   scan_candidates stype (c # cs) d = (cs, insert_candidate d (stype, c), True)"
  by (simp add: insert_candidate_def Let_def)

lemma stop_exists_empty_db: "\<not> stop_exists empty_db stype i"
  by (simp add: stop_exists_def empty_db_def)

lemma stop_exists_insert_candidate:
  "stop_exists (insert_candidate d (t, c)) stype i =
     (stop_exists d stype i \<or> (t = stype \<and> sql_eq (location_id c) i))"
  by (auto simp: stop_exists_def insert_candidate_def insert_stop_def list_ex_iff)

lemma distinct_ids_Cons:
  "distinct_ids (c # cs) \<Longrightarrow>
   distinct_ids cs \<and> (\<forall>c' \<in> set cs. \<not> sql_eq (location_id c) (location_id c'))"
  by (auto simp: distinct_ids_def sql_eq_def split: if_splits)

lemma natural_key_insert_candidate:
  "map natural_key (stops (insert_candidate d (t, c))) =
     map natural_key (stops d) @ [(t, location_id c)]"
  by (simp add: insert_candidate_def insert_stop_def natural_key_def)

text \<open>
  Claim C6, as amended. For every three listings of sizes 10, 1 and 10 in which the
  candidates that have an id have pairwise different ids within a listing (so that, on
  the empty store, every candidate is new when it is reached), a run with a batch cap
  of 6 returns with any fuel from 7 on, and the stops are inserted in the order bus,
  trolley, bus, rail, bus, rail: the first three candidates of the bus listing, the
  trolley candidate and the first two candidates of the rail listing. The trolley
  category is dropped after its single insertion (after two passes the rotation holds
  the bus and the rail category only); the next index is \<open>num_inserted mod 2 = 0\<close>, so
  the draw returns to the bus category and the rail category gets its first insertion
  only after the second bus stop; from there the two remaining categories alternate.
\<close>

theorem round_robin_ten_one_ten:
  assumes "fetch_septa_stops requests_get ''bus_stops'' = Inr bus"
    and "fetch_septa_stops requests_get ''trolley_stops'' = Inr trolley"
    and "fetch_septa_stops requests_get ''rail_stations'' = Inr rail"
    and "length bus = 10" and "length trolley = 1" and "length rail = 10"
    and "distinct_ids bus" and "distinct_ids rail"
    and "7 \<le> fuel"
  shows "store_septa_stops_cap 6 fuel requests_get empty_db =
           Returned (foldl insert_candidate empty_db
             [(''bus_stops'', bus ! 0), (''trolley_stops'', trolley ! 0),
              (''bus_stops'', bus ! 1), (''rail_stations'', rail ! 0),
              (''bus_stops'', bus ! 2), (''rail_stations'', rail ! 1)]) None \<and>
         map natural_key (stops (foldl insert_candidate empty_db
             [(''bus_stops'', bus ! 0), (''trolley_stops'', trolley ! 0),
              (''bus_stops'', bus ! 1), (''rail_stations'', rail ! 0),
              (''bus_stops'', bus ! 2), (''rail_stations'', rail ! 1)])) =
           [(''bus_stops'', location_id (bus ! 0)), (''trolley_stops'', location_id (trolley ! 0)),
            (''bus_stops'', location_id (bus ! 1)), (''rail_stations'', location_id (rail ! 0)),
            (''bus_stops'', location_id (bus ! 2)), (''rail_stations'', location_id (rail ! 1))] \<and>
         map fst (beeg_data (septa_body (septa_body (septa_start empty_db bus trolley rail)))) =
           [''bus_stops'', ''rail_stations'']"
proof -
  from \<open>length bus = 10\<close> obtain b0 b1 b2 bs where bus: "bus = b0 # b1 # b2 # bs"
    by (cases bus; simp; cases "tl bus"; simp; cases "tl (tl bus)"; simp)
  from \<open>length trolley = 1\<close> obtain t0 where trolley: "trolley = [t0]"
    by (cases trolley; simp)
  from \<open>length rail = 10\<close> obtain r0 r1 rs where rail: "rail = r0 # r1 # rs"
    by (cases rail; simp; cases "tl rail"; simp)
  from \<open>distinct_ids bus\<close> have nb:
    "\<not> sql_eq (location_id b0) (location_id b1)"
    "\<not> sql_eq (location_id b0) (location_id b2)"
    "\<not> sql_eq (location_id b1) (location_id b2)"
    using distinct_ids_Cons [of b0 "b1 # b2 # bs"] distinct_ids_Cons [of b1 "b2 # bs"]
    by (simp_all add: bus)
  from \<open>distinct_ids rail\<close> have nr: "\<not> sql_eq (location_id r0) (location_id r1)"
    using distinct_ids_Cons [of r0 "r1 # rs"] by (simp add: rail)
  define d1 where "d1 = insert_candidate empty_db (''bus_stops'', b0)"
  define d2 where "d2 = insert_candidate d1 (''trolley_stops'', t0)"
  define d3 where "d3 = insert_candidate d2 (''bus_stops'', b1)"
  define d4 where "d4 = insert_candidate d3 (''rail_stations'', r0)"
  define d5 where "d5 = insert_candidate d4 (''bus_stops'', b2)"
  define d6 where "d6 = insert_candidate d5 (''rail_stations'', r1)"
  note ds = d1_def d2_def d3_def d4_def d5_def d6_def
  define s0 where "s0 = septa_start empty_db bus trolley rail"
  define s1 where "s1 = \<lparr>conn = d1, beeg_data = [(''bus_stops'', b1 # b2 # bs),
      (''trolley_stops'', [t0]), (''rail_stations'', r0 # r1 # rs)], num_inserted = 1\<rparr>"
  define s2 where "s2 = \<lparr>conn = d2, beeg_data = [(''bus_stops'', b1 # b2 # bs),
      (''rail_stations'', r0 # r1 # rs)], num_inserted = 2\<rparr>"
  define s3 where "s3 = \<lparr>conn = d3, beeg_data = [(''bus_stops'', b2 # bs),
      (''rail_stations'', r0 # r1 # rs)], num_inserted = 3\<rparr>"
  define s4 where "s4 = \<lparr>conn = d4, beeg_data = [(''bus_stops'', b2 # bs),
      (''rail_stations'', r1 # rs)], num_inserted = 4\<rparr>"
  define s5 where "s5 = \<lparr>conn = d5, beeg_data = [(''bus_stops'', bs),
      (''rail_stations'', r1 # rs)], num_inserted = 5\<rparr>"
  define s6 where "s6 = \<lparr>conn = d6, beeg_data = [(''bus_stops'', bs),
      (''rail_stations'', rs)], num_inserted = 6\<rparr>"
  have bs: "bs \<noteq> []" and rs: "rs \<noteq> []"
    using \<open>length bus = 10\<close> \<open>length rail = 10\<close> by (auto simp: bus rail)
  have e1: "\<not> stop_exists empty_db ''bus_stops'' (location_id b0)"
    by (rule stop_exists_empty_db)
  have e2: "\<not> stop_exists d1 ''trolley_stops'' (location_id t0)"
    by (simp add: ds stop_exists_insert_candidate stop_exists_empty_db)
  have e3: "\<not> stop_exists d2 ''bus_stops'' (location_id b1)"
    by (simp add: ds stop_exists_insert_candidate stop_exists_empty_db nb)
  have e4: "\<not> stop_exists d3 ''rail_stations'' (location_id r0)"
    by (simp add: ds stop_exists_insert_candidate stop_exists_empty_db)
  have e5: "\<not> stop_exists d4 ''bus_stops'' (location_id b2)"
    by (simp add: ds stop_exists_insert_candidate stop_exists_empty_db nb)
  have e6: "\<not> stop_exists d5 ''rail_stations'' (location_id r1)"
    by (simp add: ds stop_exists_insert_candidate stop_exists_empty_db nr)
  have m: "(2::nat) mod Suc (Suc 0) = 0" "(3::nat) mod Suc (Suc 0) = Suc 0"
    "(4::nat) mod Suc (Suc 0) = 0" "(5::nat) mod Suc (Suc 0) = Suc 0"
    by (simp_all add: eval_nat_numeral mod_Suc)
  have b1: "septa_body s0 = s1"
    by (simp add: s0_def s1_def septa_start_def septa_body_def Let_def STOP_TYPES_def bus trolley rail
        scan_candidates_new [OF e1] d1_def del: scan_candidates.simps)
  have b2: "septa_body s1 = s2"
    by (simp add: s1_def s2_def septa_body_def Let_def m scan_candidates_new [OF e2] d2_def
        del: scan_candidates.simps)
  have b3: "septa_body s2 = s3"
    by (simp add: s2_def s3_def septa_body_def Let_def m scan_candidates_new [OF e3] d3_def
        del: scan_candidates.simps)
  have b4: "septa_body s3 = s4"
    by (simp add: s3_def s4_def septa_body_def Let_def m scan_candidates_new [OF e4] d4_def
        del: scan_candidates.simps)
  have b5: "septa_body s4 = s5"
    by (simp add: s4_def s5_def septa_body_def Let_def m scan_candidates_new [OF e5] d5_def bs
        del: scan_candidates.simps)
  have b6: "septa_body s5 = s6"
    by (simp add: s5_def s6_def septa_body_def Let_def m scan_candidates_new [OF e6] d6_def rs
        del: scan_candidates.simps)
  have n: "num_inserted s0 = 0" "beeg_data s0 \<noteq> []" "num_inserted s1 = 1" "beeg_data s1 \<noteq> []"
    "num_inserted s2 = 2" "beeg_data s2 \<noteq> []" "num_inserted s3 = 3" "beeg_data s3 \<noteq> []"
    "num_inserted s4 = 4" "beeg_data s4 \<noteq> []" "num_inserted s5 = 5" "beeg_data s5 \<noteq> []"
    "num_inserted s6 = 6" "beeg_data s6 \<noteq> []"
    by (simp_all add: s0_def septa_start_def s1_def s2_def s3_def s4_def s5_def s6_def)
  have "septa_while 6 (Suc (Suc (Suc (Suc (Suc (Suc (Suc 0))))))) s0 = Finished s6"
    by (simp add: n b1 b2 b3 b4 b5 b6)
  then have "septa_while 6 7 s0 = Finished s6"
    by (simp add: eval_nat_numeral)
  from septa_while_more_fuel [OF this, of "fuel - 7"] \<open>7 \<le> fuel\<close>
  have w: "septa_while 6 fuel s0 = Finished s6"
    by simp
  have f: "foldl insert_candidate empty_db
             [(''bus_stops'', bus ! 0), (''trolley_stops'', trolley ! 0),
              (''bus_stops'', bus ! 1), (''rail_stations'', rail ! 0),
              (''bus_stops'', bus ! 2), (''rail_stations'', rail ! 1)] = d6"
    by (simp add: ds bus trolley rail)
  have 1: "store_septa_stops_cap 6 fuel requests_get empty_db = Returned d6 None"
    using w by (simp add: store_septa_stops_cap_def assms(1-3) s0_def s6_def)
  have 2: "map natural_key (stops d6) =
           [(''bus_stops'', location_id (bus ! 0)), (''trolley_stops'', location_id (trolley ! 0)),
            (''bus_stops'', location_id (bus ! 1)), (''rail_stations'', location_id (rail ! 0)),
            (''bus_stops'', location_id (bus ! 2)), (''rail_stations'', location_id (rail ! 1))]"
    by (simp add: ds natural_key_insert_candidate bus trolley rail empty_db_def)
  have 3: "map fst (beeg_data (septa_body (septa_body (septa_start empty_db bus trolley rail)))) =
           [''bus_stops'', ''rail_stations'']"
    using b1 b2 by (simp add: s0_def s2_def)
  from 1 2 3 show ?thesis
    unfolding f by blast
qed

text \<open>
  On the listings b0..b9, t0, r0..r9 the run with seven passes returns the store with
  b0, t0, b1, r0, b2, r1, in this order.
\<close>

theorem round_robin_ten_one_ten_witness:
  "fetch_septa_stops ten_one_ten ''bus_stops'' = Inr (ten ''b'') \<and>
   fetch_septa_stops ten_one_ten ''trolley_stops'' = Inr [stop_rec ''t0''] \<and>
   fetch_septa_stops ten_one_ten ''rail_stations'' = Inr (ten ''r'') \<and>
   length (ten ''b'') = 10 \<and> length [stop_rec ''t0''] = 1 \<and> length (ten ''r'') = 10 \<and>
   distinct_ids (ten ''b'') \<and> distinct_ids (ten ''r'') \<and>
   store_septa_stops_cap 6 7 ten_one_ten empty_db = Returned db_ten_one_ten None \<and>
   map natural_key (stops db_ten_one_ten) =
     [(''bus_stops'', Some ''b0''), (''trolley_stops'', Some ''t0''), (''bus_stops'', Some ''b1''),
      (''rail_stations'', Some ''r0''), (''bus_stops'', Some ''b2''), (''rail_stations'', Some ''r1'')]"
proof -
  have f: "fetch_septa_stops ten_one_ten ''bus_stops'' = Inr (ten ''b'')"
    "fetch_septa_stops ten_one_ten ''trolley_stops'' = Inr [stop_rec ''t0'']"
    "fetch_septa_stops ten_one_ten ''rail_stations'' = Inr (ten ''r'')"
    by (simp_all add: fetch_septa_stops_def ten_one_ten_def by_type_def ok_def)
  have l: "length (ten ''b'') = 10" "length [stop_rec ''t0''] = 1" "length (ten ''r'') = 10"
    by (simp_all add: ten_def)
  have d: "distinct_ids (ten ''b'')" "distinct_ids (ten ''r'')"
    by code_simp+
  have e: "foldl insert_candidate empty_db
             [(''bus_stops'', ten ''b'' ! 0), (''trolley_stops'', [stop_rec ''t0''] ! 0),
              (''bus_stops'', ten ''b'' ! 1), (''rail_stations'', ten ''r'' ! 0),
              (''bus_stops'', ten ''b'' ! 2), (''rail_stations'', ten ''r'' ! 1)] = db_ten_one_ten"
    by code_simp
  have k: "map natural_key (stops db_ten_one_ten) =
     [(''bus_stops'', Some ''b0''), (''trolley_stops'', Some ''t0''), (''bus_stops'', Some ''b1''),
      (''rail_stations'', Some ''r0''), (''bus_stops'', Some ''b2''), (''rail_stations'', Some ''r1'')]"
    by code_simp
  from round_robin_ten_one_ten [OF f l d, of 7]
  have "store_septa_stops_cap 6 7 ten_one_ten empty_db = Returned db_ten_one_ten None"
    unfolding e by simp
  with f l d k show ?thesis by blast
qed

text \<open>
  Counterexample to claim C6 as stated (one insertion per category per round): the
  third insertion is a second bus stop, where the rotation of the specification draws
  the first rail station.
\<close>

theorem round_robin_order_broken:
  "store_septa_stops_cap 6 7 ten_one_ten empty_db = Returned db_ten_one_ten None \<and>
   map natural_key (stops db_ten_one_ten) \<noteq>
     round_robin 6 [(''bus_stops'', ten ''b''), (''trolley_stops'', [stop_rec ''t0'']),
                    (''rail_stations'', ten ''r'')] \<and>
   natural_key (stops db_ten_one_ten ! 2) = (''bus_stops'', Some ''b1'') \<and>
   round_robin 6 [(''bus_stops'', ten ''b''), (''trolley_stops'', [stop_rec ''t0'']),
                  (''rail_stations'', ten ''r'')] ! 2 = (''rail_stations'', Some ''r0'')"
  by code_simp

section \<open>The POI batcher\<close>

lemma extends_refl: "extends d d"
  by (simp add: extends_def)

lemma extends_trans: "extends a b \<Longrightarrow> extends b c \<Longrightarrow> extends a c"
  by (auto simp: extends_def)

lemma new_rows_mono:
  "extends a b \<Longrightarrow> extends b c \<Longrightarrow> extends c e \<Longrightarrow> set (new_rows b c) \<subseteq> set (new_rows a e)"
  by (auto simp: extends_def new_rows_def)

text \<open>The only exception of the body of the loop is the OverflowError of the binding.\<close>

lemma store_poi_error: "store_poi stop_id pd d = Inl e \<Longrightarrow> e = OverflowError"
  by (auto simp: store_poi_def Let_def split: if_splits)

lemma store_poi_overflow: "store_poi stop_id far_atm d = Inl OverflowError"
  by (simp add: store_poi_def far_atm_def atm_def bindable_def Let_def)

lemma store_poi_result:
  "store_poi stop_id pd d = Inr (d', b) \<Longrightarrow>
     stops d' = stops d \<and>
     (if b then \<exists>row. pois d' = pois d @ [row] \<and> p_stop_id row = stop_id \<and>
                      p_distance row = pd_distance pd
      else d' = d)"
  by (auto simp: store_poi_def Let_def insert_poi_def split: if_splits)

lemma store_poi_extends: "store_poi stop_id pd d = Inr (d', b) \<Longrightarrow> extends d d'"
  by (auto simp: store_poi_def Let_def insert_poi_def extends_def split: if_splits)

lemma is_new_mono: "extends d d' \<Longrightarrow> \<not> is_new d stop_id pd \<Longrightarrow> \<not> is_new d' stop_id pd"
  by (auto simp: is_new_def extends_def select_pois_def)

lemma count_for_radius_mono: "extends d d' \<Longrightarrow> count_for_radius d stop_id \<le> count_for_radius d' stop_id"
  by (auto simp: extends_def count_for_radius_def)

text \<open>
  After the body of the loop a keyed record passes for stored.
\<close>

lemma store_poi_stored:
  "store_poi stop_id pd d = Inr (d', b) \<Longrightarrow> keyed pd \<Longrightarrow> \<not> is_new d' stop_id pd"
  by (auto simp: is_new_def store_poi_def Let_def insert_poi_def select_pois_def keyed_def sql_eq_def
      split: if_splits)

text \<open>
  The existence check never matches a NULL distance, and NULL is bound without an
  exception: the body of the loop inserts the row of a record without a distance.
\<close>

lemma store_poi_null:
  "pd_distance pd = None \<Longrightarrow>
   store_poi stop_id pd d =
     Inr (insert_poi d stop_id None (get_or (pd_name pd) (Some ''Unknown Name''))
            (get_or (pd_class pd) (Some ''Unknown Category'')), True)"
  by (simp add: store_poi_def Let_def select_pois_def sql_eq_def bindable_def)

lemma store_poi_null_row:
  "store_poi stop_id pd d = Inr (d', b) \<Longrightarrow> pd_distance pd = None \<Longrightarrow>
   \<exists>row \<in> set (new_rows d d'). null_row_of stop_id pd row"
  by (auto simp: store_poi_null insert_poi_def new_rows_def null_row_of_def)

text \<open>
  The loop over one response, entered below the cap.
\<close>

lemma insert_pois_result:
  "insert_pois cap stop_id pds (d, c) = ((d', c'), err) \<Longrightarrow> c < cap \<Longrightarrow>
     extends d d' \<and> c \<le> c' \<and> c' \<le> cap \<and> length (pois d') = length (pois d) + (c' - c) \<and>
     (err = None \<or> err = Some OverflowError) \<and>
     (err = None \<longrightarrow> c' < cap \<longrightarrow>
        (\<forall>pd \<in> set pds. (keyed pd \<longrightarrow> \<not> is_new d' stop_id pd) \<and>
           (pd_distance pd = None \<longrightarrow> (\<exists>row \<in> set (new_rows d d'). null_row_of stop_id pd row))))"
proof (induction pds arbitrary: d c)
  case Nil
  then show ?case by (simp add: extends_refl)
next
  case (Cons pd pds)
  show ?case
  proof (cases "store_poi stop_id pd d")
    case (Inl e)
    with Cons.prems store_poi_error [OF Inl] show ?thesis
      by (auto simp: extends_refl)
  next
    case (Inr p)
    obtain d1 b where p: "p = (d1, b)" by (cases p) auto
    with Inr have s: "store_poi stop_id pd d = Inr (d1, b)" by simp
    note e1 = store_poi_extends [OF s]
    note r1 = store_poi_result [OF s]
    show ?thesis
    proof (cases "b \<and> c + 1 \<ge> cap")
      case True
      with Cons.prems s have "d' = d1" "c' = c + 1" "err = None" by auto
      with True e1 r1 Cons.prems(2) show ?thesis by auto
    next
      case False
      define c1 where "c1 = (if b then c + 1 else c)"
      from False Cons.prems s have rec: "insert_pois cap stop_id pds (d1, c1) = ((d', c'), err)"
        by (auto simp: c1_def split: if_splits)
      from False Cons.prems(2) have "c1 < cap" by (auto simp: c1_def)
      from Cons.IH [OF rec this] have
        ih: "extends d1 d'" "c1 \<le> c'" "c' \<le> cap" "length (pois d') = length (pois d1) + (c' - c1)"
          "err = None \<or> err = Some OverflowError"
          "err = None \<longrightarrow> c' < cap \<longrightarrow>
             (\<forall>pd \<in> set pds. (keyed pd \<longrightarrow> \<not> is_new d' stop_id pd) \<and>
                (pd_distance pd = None \<longrightarrow> (\<exists>row \<in> set (new_rows d1 d'). null_row_of stop_id pd row)))"
        by auto
      have len: "length (pois d1) = length (pois d) + (c1 - c)"
        using r1 by (auto simp: c1_def)
      have k: "keyed pd \<longrightarrow> \<not> is_new d' stop_id pd"
        using store_poi_stored [OF s] is_new_mono [OF ih(1)] by blast
      have sub1: "set (new_rows d d1) \<subseteq> set (new_rows d d')"
        using new_rows_mono [OF extends_refl e1 ih(1)] .
      have sub2: "set (new_rows d1 d') \<subseteq> set (new_rows d d')"
        using new_rows_mono [OF e1 ih(1) extends_refl] .
      have n: "pd_distance pd = None \<longrightarrow> (\<exists>row \<in> set (new_rows d d'). null_row_of stop_id pd row)"
        using store_poi_null_row [OF s] sub1 by blast
      have a: "err = None \<longrightarrow> c' < cap \<longrightarrow>
           (\<forall>x \<in> set (pd # pds). (keyed x \<longrightarrow> \<not> is_new d' stop_id x) \<and>
              (pd_distance x = None \<longrightarrow> (\<exists>row \<in> set (new_rows d d'). null_row_of stop_id x row)))"
      proof (intro impI ballI)
        fix x
        assume h: "err = None" "c' < cap" "x \<in> set (pd # pds)"
        show "(keyed x \<longrightarrow> \<not> is_new d' stop_id x) \<and>
              (pd_distance x = None \<longrightarrow> (\<exists>row \<in> set (new_rows d d'). null_row_of stop_id x row))"
        proof (cases "x = pd")
          case True
          with k n show ?thesis by simp
        next
          case False
          with h have "x \<in> set pds" by simp
          with ih(6) h sub2 show ?thesis by blast
        qed
      qed
      have cc: "c \<le> c1" by (simp add: c1_def)
      have e: "extends d d'" using e1 ih(1) by (rule extends_trans)
      have l: "length (pois d') = length (pois d) + (c' - c)"
        using ih(2,4) len cc by simp
      from e cc ih(2,3,5) l a show ?thesis by simp
    qed
  qed
qed

lemma done_with_mono:
  assumes "extends d d'" and "done_with api d stop"
  shows "done_with api d' stop"
proof -
  obtain stop_id slat slon n where x: "stop = (stop_id, slat, slon, n)"
    by (cases stop) auto
  from assms(2) x consider "count_for_radius d stop_id \<ge> 50"
    | "\<forall>pd \<in> set (fetch_locationiq_pois api slat slon (POI_RADII ! 2)).
         keyed pd \<longrightarrow> \<not> is_new d stop_id pd"
    by (auto simp: done_with_def)
  then show ?thesis
  proof cases
    case 1
    with count_for_radius_mono [OF assms(1), of stop_id] show ?thesis
      by (simp add: done_with_def x)
  next
    case 2
    with is_new_mono [OF assms(1)] show ?thesis
      by (auto simp: done_with_def x)
  qed
qed

lemma nulls_stored_mono:
  assumes "extends d0 d1" and "extends d1 d2" and "extends d2 d3"
    and "nulls_stored api d1 d2 stop"
  shows "nulls_stored api d0 d3 stop"
proof -
  obtain stop_id slat slon n where x: "stop = (stop_id, slat, slon, n)"
    by (cases stop) auto
  note sub = new_rows_mono [OF assms(1-3)]
  from assms(4) x consider "count_for_radius d2 stop_id \<ge> 50"
    | "\<forall>pd \<in> set (fetch_locationiq_pois api slat slon (POI_RADII ! 2)).
         pd_distance pd = None \<longrightarrow> (\<exists>row \<in> set (new_rows d1 d2). null_row_of stop_id pd row)"
    by (auto simp: nulls_stored_def)
  then show ?thesis
  proof cases
    case 1
    with count_for_radius_mono [OF assms(3), of stop_id] show ?thesis
      by (simp add: nulls_stored_def x)
  next
    case 2
    with sub have "\<forall>pd \<in> set (fetch_locationiq_pois api slat slon (POI_RADII ! 2)).
         pd_distance pd = None \<longrightarrow> (\<exists>row \<in> set (new_rows d0 d3). null_row_of stop_id pd row)"
      by blast
    then show ?thesis
      by (simp add: nulls_stored_def x)
  qed
qed

text \<open>
  The loop over the stops.
\<close>

lemma visit_stops_result:
  "visit_stops cap api xs (d, c) = ((d', c'), err) \<Longrightarrow> c \<le> cap \<Longrightarrow>
     extends d d' \<and> c \<le> c' \<and> c' \<le> cap \<and> length (pois d') = length (pois d) + (c' - c) \<and>
     (err = None \<or> err = Some OverflowError) \<and>
     (err = None \<longrightarrow> c' < cap \<longrightarrow>
        (\<forall>stop \<in> set xs. done_with api d' stop \<and> nulls_stored api d d' stop))"
proof (induction xs arbitrary: d c)
  case Nil
  then show ?case by (simp add: extends_refl)
next
  case (Cons x xs)
  obtain stop_id slat slon n where x: "x = (stop_id, slat, slon, n)"
    by (cases x) auto
  show ?case
  proof (cases "c \<ge> cap")
    case True
    with Cons.prems x show ?thesis by (auto simp: extends_refl)
  next
    case False
    then have lt: "c < cap" by simp
    show ?thesis
    proof (cases "count_for_radius d stop_id < 50")
      case sat: False
      with False Cons.prems x have rec: "visit_stops cap api xs (d, c) = ((d', c'), err)" by simp
      from Cons.IH [OF rec Cons.prems(2)] have
        ih: "extends d d'" "c \<le> c'" "c' \<le> cap" "length (pois d') = length (pois d) + (c' - c)"
          "err = None \<or> err = Some OverflowError"
          "err = None \<longrightarrow> c' < cap \<longrightarrow>
             (\<forall>stop \<in> set xs. done_with api d' stop \<and> nulls_stored api d d' stop)"
        by auto
      from sat have "done_with api d x" by (simp add: done_with_def x)
      then have 1: "done_with api d' x" using done_with_mono ih(1) by blast
      from sat count_for_radius_mono [OF ih(1), of stop_id] have 2: "nulls_stored api d d' x"
        by (simp add: nulls_stored_def x)
      from 1 2 ih show ?thesis by auto
    next
      case True
      obtain d1 c1 e1 where i: "insert_pois cap stop_id
          (fetch_locationiq_pois api slat slon (POI_RADII ! 2)) (d, c) = ((d1, c1), e1)"
        by (cases "insert_pois cap stop_id
          (fetch_locationiq_pois api slat slon (POI_RADII ! 2)) (d, c)") auto
      from insert_pois_result [OF i lt] have
        r1: "extends d d1" "c \<le> c1" "c1 \<le> cap" "length (pois d1) = length (pois d) + (c1 - c)"
          "e1 = None \<or> e1 = Some OverflowError"
          "e1 = None \<longrightarrow> c1 < cap \<longrightarrow>
            (\<forall>pd \<in> set (fetch_locationiq_pois api slat slon (POI_RADII ! 2)).
              (keyed pd \<longrightarrow> \<not> is_new d1 stop_id pd) \<and>
              (pd_distance pd = None \<longrightarrow> (\<exists>row \<in> set (new_rows d d1). null_row_of stop_id pd row)))"
        by auto
      show ?thesis
      proof (cases e1)
        case (Some e)
        with True False Cons.prems x i have "d' = d1" "c' = c1" "err = e1" by auto
        with r1 Some show ?thesis by auto
      next
        case None
        with True False Cons.prems x i have rec: "visit_stops cap api xs (d1, c1) = ((d', c'), err)"
          by simp
        from Cons.IH [OF rec r1(3)] have
          ih: "extends d1 d'" "c1 \<le> c'" "c' \<le> cap" "length (pois d') = length (pois d1) + (c' - c1)"
            "err = None \<or> err = Some OverflowError"
            "err = None \<longrightarrow> c' < cap \<longrightarrow>
               (\<forall>stop \<in> set xs. done_with api d' stop \<and> nulls_stored api d1 d' stop)"
          by auto
        have a: "err = None \<longrightarrow> c' < cap \<longrightarrow>
               (\<forall>stop \<in> set (x # xs). done_with api d' stop \<and> nulls_stored api d d' stop)"
        proof (intro impI ballI)
          fix stop
          assume h: "err = None" "c' < cap" "stop \<in> set (x # xs)"
          from h(2) ih(2) have c1: "c1 < cap" by simp
          show "done_with api d' stop \<and> nulls_stored api d d' stop"
          proof (cases "stop = x")
            case True
            from r1(6) None c1 have "done_with api d1 x" "nulls_stored api d d1 x"
              by (simp_all add: done_with_def nulls_stored_def x)
            with done_with_mono [OF ih(1)] nulls_stored_mono [OF extends_refl r1(1) ih(1)] True
            show ?thesis by blast
          next
            case False
            with h have "stop \<in> set xs" by simp
            with ih(6) h have "done_with api d' stop" "nulls_stored api d1 d' stop" by blast+
            with nulls_stored_mono [OF r1(1) ih(1) extends_refl] show ?thesis by blast
          qed
        qed
        have e: "extends d d'" using r1(1) ih(1) by (rule extends_trans)
        have l: "length (pois d') = length (pois d) + (c' - c)"
          using ih(2,4) r1(2,4) by simp
        from e r1(2) ih(2,3,5) l a show ?thesis by simp
      qed
    qed
  qed
qed

lemma store_pois_cap_result:
  "\<exists>ins. pois (fst (store_pois_cap cap api d)) = pois d @ ins \<and>
         stops (fst (store_pois_cap cap api d)) = stops d \<and> length ins \<le> cap \<and>
         (snd (store_pois_cap cap api d) = Inr (length ins) \<or>
          snd (store_pois_cap cap api d) = Inl OverflowError)"
proof -
  obtain d' c' err where v: "visit_stops cap api (reordered_stops d) (d, 0) = ((d', c'), err)"
    by (cases "visit_stops cap api (reordered_stops d) (d, 0)") auto
  from visit_stops_result [OF v] have
    "extends d d'" "c' \<le> cap" "length (pois d') = length (pois d) + c'"
    "err = None \<or> err = Some OverflowError"
    by auto
  with v show ?thesis
    by (auto simp: store_pois_cap_def extends_def)
qed

text \<open>
  Claim C3. A single invocation inserts at most 25 records: whatever the responses, the
  store and the fuel, \<open>store_septa_stops\<close> has only appended rows to the stop table, at
  most 25 of them, when it returns and while it runs; \<open>store_pois\<close> only appends rows
  to the POI table, at most 25, and returns their number, unless it raises the
  OverflowError of a distance beyond 64 bits, after at most 25 rows as well.
\<close>

theorem batch_cap_respected:
  "(store_septa_stops fuel requests_get d = Returned d' r \<or>
    store_septa_stops fuel requests_get d = Running d'
      \<longrightarrow> (\<exists>ins. stops d' = stops d @ ins \<and> length ins \<le> 25)) \<and>
   (\<exists>ins. pois (fst (store_pois requests_get' e)) = pois e @ ins \<and> length ins \<le> 25 \<and>
          (snd (store_pois requests_get' e) = Inr (length ins) \<or>
           snd (store_pois requests_get' e) = Inl OverflowError))"
proof
  show "store_septa_stops fuel requests_get d = Returned d' r \<or>
        store_septa_stops fuel requests_get d = Running d'
          \<longrightarrow> (\<exists>ins. stops d' = stops d @ ins \<and> length ins \<le> 25)"
    using store_septa_stops_cap_result [of BATCH_SIZE fuel requests_get d d' r]
    by (auto simp: store_septa_stops_def BATCH_SIZE_def)
next
  show "\<exists>ins. pois (fst (store_pois requests_get' e)) = pois e @ ins \<and> length ins \<le> 25 \<and>
          (snd (store_pois requests_get' e) = Inr (length ins) \<or>
           snd (store_pois requests_get' e) = Inl OverflowError)"
    using store_pois_cap_result [of BATCH_SIZE requests_get' e]
    by (auto simp: store_pois_def BATCH_SIZE_def)
qed

text \<open>
  A run of each batcher that returns: three stops, and three POI rows with the count 3.
\<close>

theorem batch_cap_respected_witness:
  "store_septa_stops 4 one_each empty_db = Returned db_one_each None \<and>
   (\<exists>ins. stops db_one_each = stops empty_db @ ins \<and> length ins \<le> 25) \<and>
   snd (store_pois first_day db_three_stops) = Inr 3 \<and>
   (\<exists>ins. pois (fst (store_pois first_day db_three_stops)) = pois db_three_stops @ ins \<and>
          length ins \<le> 25 \<and> snd (store_pois first_day db_three_stops) = Inr (length ins))"
proof -
  have 1: "store_septa_stops 4 one_each empty_db = Returned db_one_each None"
    by code_simp
  have 2: "snd (store_pois first_day db_three_stops) = Inr 3"
    by code_simp
  from batch_cap_respected [of 4 one_each empty_db db_one_each None first_day db_three_stops] 1 2
  show ?thesis by auto
qed

subsection \<open>The order of the visit\<close>

text \<open>
  The first element of \<open>indices\<close> is the least index that satisfies the test.
\<close>

lemma first_index:
  assumes "filter P [0..<n] \<noteq> []"
  shows "filter P [0..<n] ! 0 < n \<and> P (filter P [0..<n] ! 0) \<and> (\<forall>j < filter P [0..<n] ! 0. \<not> P j)"
proof -
  let ?xs = "filter P [0..<n]"
  from assms have "0 < length ?xs" by simp
  then have h: "?xs ! 0 \<in> set ?xs" by (rule nth_mem)
  then have a: "?xs ! 0 < n" "P (?xs ! 0)" by auto
  have s: "sorted ?xs" by (simp add: sorted_wrt_filter)
  have "\<not> P j" if "j < ?xs ! 0" for j
  proof
    assume "P j"
    with that a have "j \<in> set ?xs" by auto
    then obtain i where "i < length ?xs" "?xs ! i = j" by (metis in_set_conv_nth)
    with sorted_nth_mono [OF s, of 0 i] have "?xs ! 0 \<le> j" by blast
    with that show False by simp
  qed
  with a show ?thesis by blast
qed

lemma reordered_stops_none:
  "second_to_last_stop_id d = None \<Longrightarrow> reordered_stops d = select_all_stops d"
  by (simp add: reordered_stops_def)

lemma reordered_stops_absent:
  "second_to_last_stop_id d = Some m \<Longrightarrow> m \<notin> fst ` set (select_all_stops d) \<Longrightarrow>
     reordered_stops d = select_all_stops d"
proof -
  assume a: "second_to_last_stop_id d = Some m" and b: "m \<notin> fst ` set (select_all_stops d)"
  let ?all = "select_all_stops d"
  have "filter (\<lambda>i. fst (?all ! i) = m) [0..<length ?all] = []"
  proof (rule ccontr)
    assume "filter (\<lambda>i. fst (?all ! i) = m) [0..<length ?all] \<noteq> []"
    from first_index [OF this] obtain k where "k < length ?all" "fst (?all ! k) = m" by blast
    then have "m \<in> fst ` set ?all" by (metis image_eqI nth_mem)
    with b show False by simp
  qed
  with a show ?thesis by (simp add: reordered_stops_def)
qed

lemma reordered_stops_present:
  assumes a: "second_to_last_stop_id d = Some m" and b: "m \<in> fst ` set (select_all_stops d)"
  shows "\<exists>k < length (select_all_stops d).
           fst (select_all_stops d ! k) = m \<and> (\<forall>j < k. fst (select_all_stops d ! j) \<noteq> m) \<and>
           reordered_stops d = rotate k (select_all_stops d)"
proof -
  let ?all = "select_all_stops d"
  let ?ix = "filter (\<lambda>i. fst (?all ! i) = m) [0..<length ?all]"
  from b obtain i where "i < length ?all" "fst (?all ! i) = m"
    by (auto simp: in_set_conv_nth)
  then have "i \<in> set ?ix" by simp
  then have ne: "?ix \<noteq> []" by (metis empty_iff empty_set)
  from first_index [OF ne] have
    k: "?ix ! 0 < length ?all" "fst (?all ! (?ix ! 0)) = m" "\<forall>j < ?ix ! 0. fst (?all ! j) \<noteq> m"
    by blast+
  have "reordered_stops d = drop (?ix ! 0) ?all @ take (?ix ! 0) ?all"
    using a ne by (simp add: reordered_stops_def Let_def)
  also have "\<dots> = rotate (?ix ! 0) ?all"
    using k(1) by (simp add: rotate_drop_take)
  finally show ?thesis using k by blast
qed

text \<open>
  In a list without duplicates in descending order, exactly the first element is
  larger than the second.
\<close>

lemma desc_two:
  fixes ys :: "nat list"
  assumes "sorted (rev ys)" and "distinct ys" and "2 \<le> length ys"
  shows "{i \<in> set ys. ys ! 1 < i} = {ys ! 0}"
proof -
  from assms(3) obtain a b rest where ys: "ys = a # b # rest"
    by (cases ys; cases "tl ys") auto
  from assms(1) have "sorted_wrt (\<lambda>x y. y \<le> x) ys"
    by (simp add: sorted_wrt_rev)
  with ys have "b \<le> a" "\<forall>x \<in> set rest. x \<le> b" by auto
  moreover from assms(2) ys have "a \<noteq> b" by auto
  ultimately have "{i \<in> set (a # b # rest). b < i} = {a}" by fastforce
  with ys show ?thesis by simp
qed

lemma second_to_last_stop_id_some:
  assumes "second_to_last_stop_id d = Some m"
  shows "m \<in> p_stop_id ` set (pois d) \<and>
         (\<exists>M \<in> p_stop_id ` set (pois d). {i \<in> p_stop_id ` set (pois d). m < i} = {M})"
proof -
  let ?ys = "rev (sort (remdups (map p_stop_id (pois d))))"
  have s: "set ?ys = p_stop_id ` set (pois d)" by simp
  from assms have len: "2 \<le> length ?ys" and m: "m = ?ys ! 1"
    by (auto simp: second_to_last_stop_id_def pois_stop_ids_def split: if_splits)
  have "{i \<in> set ?ys. ?ys ! 1 < i} = {?ys ! 0}"
    by (rule desc_two) (use len in simp_all)
  moreover have l0: "0 < length ?ys" and l1: "1 < length ?ys"
    using len by linarith+
  have "?ys ! 0 \<in> set ?ys" "?ys ! 1 \<in> set ?ys"
    using nth_mem [OF l0] nth_mem [OF l1] by blast+
  ultimately show ?thesis
    unfolding m s by blast
qed

lemma second_to_last_stop_id_none:
  "second_to_last_stop_id d = None \<longleftrightarrow> card (p_stop_id ` set (pois d)) < 2"
proof -
  let ?ys = "rev (sort (remdups (map p_stop_id (pois d))))"
  have "card (set ?ys) = length ?ys"
    by (rule distinct_card) simp
  then have "card (p_stop_id ` set (pois d)) = length ?ys"
    by simp
  then show ?thesis
    by (auto simp: second_to_last_stop_id_def pois_stop_ids_def)
qed

lemma set_reordered_stops: "set (reordered_stops d) = set (select_all_stops d)"
proof (cases "second_to_last_stop_id d")
  case None
  then show ?thesis by (simp add: reordered_stops_none)
next
  case (Some m)
  show ?thesis
  proof (cases "m \<in> fst ` set (select_all_stops d)")
    case True
    from reordered_stops_present [OF Some True] show ?thesis by auto
  next
    case False
    from reordered_stops_absent [OF Some False] show ?thesis by simp
  qed
qed

text \<open>
  Claim C5, as amended. The restart point is not the second-most-recently-touched stop
  but the second-largest stop id that has POI rows (\<open>ORDER BY stop_id DESC LIMIT 2\<close>):
  such an id \<open>m\<close> exists when at least two stop ids have POI rows, and then exactly one
  stop id with POI rows is larger. When \<open>m\<close> is the id of a stop, the visitation list is
  the stop table rotated to begin at the first stop with that id, wrapping around to
  cover all stops; otherwise it is the stop table in its own order.
\<close>

theorem reordered_stops_rotation:
  "(second_to_last_stop_id d = None \<longleftrightarrow> card (p_stop_id ` set (pois d)) < 2) \<and>
   (second_to_last_stop_id d = Some m \<longrightarrow>
      m \<in> p_stop_id ` set (pois d) \<and>
      (\<exists>M \<in> p_stop_id ` set (pois d). {i \<in> p_stop_id ` set (pois d). m < i} = {M})) \<and>
   (second_to_last_stop_id d = None \<or>
    second_to_last_stop_id d = Some m \<and> m \<notin> fst ` set (select_all_stops d) \<longrightarrow>
      reordered_stops d = select_all_stops d) \<and>
   (second_to_last_stop_id d = Some m \<and> m \<in> fst ` set (select_all_stops d) \<longrightarrow>
      (\<exists>k < length (select_all_stops d).
         fst (select_all_stops d ! k) = m \<and> (\<forall>j < k. fst (select_all_stops d ! j) \<noteq> m) \<and>
         reordered_stops d = rotate k (select_all_stops d)))"
  using second_to_last_stop_id_none [of d] second_to_last_stop_id_some [of d m]
    reordered_stops_none [of d] reordered_stops_absent [of d m] reordered_stops_present [of d m]
  by blast

text \<open>
  In \<open>db_wrapped\<close> the restart point is stop 2.
\<close>

theorem reordered_stops_rotation_witness:
  "second_to_last_stop_id db_wrapped = Some 2 \<and> 2 \<in> fst ` set (select_all_stops db_wrapped) \<and>
   (\<exists>k < length (select_all_stops db_wrapped).
      fst (select_all_stops db_wrapped ! k) = 2 \<and>
      reordered_stops db_wrapped = rotate k (select_all_stops db_wrapped))"
proof -
  have h: "second_to_last_stop_id db_wrapped = Some 2" by code_simp
  have i: "2 \<in> fst ` set (select_all_stops db_wrapped)"
    by (simp add: select_all_stops_def db_wrapped_def db_three_stops_def stop_at_def)
  from reordered_stops_rotation [of db_wrapped 2] h i show ?thesis by blast
qed

text \<open>
  Counterexample to claim C5 as stated: after the runs of the two days the most
  recently touched stop is stop 1 and the second-most-recently touched is stop 3, but
  the next visit begins at stop 2.
\<close>

theorem reordered_stops_not_recency:
  "store_pois next_day (fst (store_pois first_day db_three_stops)) = (db_wrapped, Inr 1) \<and>
   touched_order db_wrapped = [1, 3, 2] \<and>
   second_most_recently_touched db_wrapped = Some 3 \<and>
   map fst (reordered_stops db_wrapped) = [2, 3, 1]"
  by code_simp

subsection \<open>The exhaustion signal\<close>


text \<open>
  A run that returns a count below the cap has visited every stop to the end of its
  response.
\<close>

lemma store_pois_below_cap:
  assumes "snd (store_pois api d) = Inr n" and "n < BATCH_SIZE"
  shows "extends d (fst (store_pois api d)) \<and>
         (\<forall>stop \<in> set (select_all_stops d).
            done_with api (fst (store_pois api d)) stop \<and>
            nulls_stored api d (fst (store_pois api d)) stop)"
proof -
  obtain d' c' err where v: "visit_stops BATCH_SIZE api (reordered_stops d) (d, 0) = ((d', c'), err)"
    by (cases "visit_stops BATCH_SIZE api (reordered_stops d) (d, 0)") auto
  with assms have c: "c' < BATCH_SIZE" and er: "err = None" and s: "fst (store_pois api d) = d'"
    by (auto simp: store_pois_def store_pois_cap_def split: option.splits)
  from visit_stops_result [OF v] c er have
    "extends d d'"
    "\<forall>stop \<in> set (reordered_stops d). done_with api d' stop \<and> nulls_stored api d d' stop"
    by auto
  then show ?thesis
    by (simp add: set_reordered_stops s)
qed



text \<open>
  A response of keyed records with different distances that fit in 64 bits, none stored
  for the stop, that fits below the cap is inserted whole, in its order.
\<close>

lemma insert_pois_all_new:
  assumes "\<forall>pd \<in> set pds. keyed pd \<and> bindable (pd_distance pd)"
    and "distinct (map pd_distance pds)"
    and "\<forall>pd \<in> set pds. \<forall>p \<in> set (pois d).
           p_stop_id p = stop_id \<longrightarrow> p_distance p \<noteq> pd_distance pd"
    and "c + length pds \<le> cap"
  shows "\<exists>d'. insert_pois cap stop_id pds (d, c) = ((d', c + length pds), None) \<and>
         stops d' = stops d \<and>
         map p_distance (pois d') = map p_distance (pois d) @ map pd_distance pds \<and>
         map p_stop_id (pois d') = map p_stop_id (pois d) @ map (\<lambda>pd. stop_id) pds \<and>
         (\<forall>pd \<in> set pds. \<not> is_new d' stop_id pd)"
  using assms
proof (induction pds arbitrary: d c)
  case Nil
  then show ?case by simp
next
  case (Cons pd pds)
  let ?d1 = "insert_poi d stop_id (pd_distance pd) (get_or (pd_name pd) (Some ''Unknown Name''))
               (get_or (pd_class pd) (Some ''Unknown Category''))"
  from Cons.prems(3) have "select_pois d stop_id (pd_distance pd)
      (get_or (pd_class pd) (Some ''Unknown Category'')) (get_or (pd_name pd) (Some ''Unknown Name'')) = []"
    by (auto simp: select_pois_def filter_empty_conv sql_eq_def)
  with Cons.prems(1) have s: "store_poi stop_id pd d = Inr (?d1, True)"
    by (simp add: store_poi_def)
  from Cons.prems(1) have k: "keyed pd" by simp
  note st = store_poi_stored [OF s k]
  show ?case
  proof (cases "pds = []")
    case True
    with s st show ?thesis
      by (simp add: insert_poi_def)
  next
    case False
    with Cons.prems(4) have lt: "c + 1 < cap" by (cases pds) auto
    then have r: "insert_pois cap stop_id (pd # pds) (d, c) = insert_pois cap stop_id pds (?d1, c + 1)"
      using s by simp
    have 3: "\<forall>x \<in> set pds. \<forall>p \<in> set (pois ?d1).
           p_stop_id p = stop_id \<longrightarrow> p_distance p \<noteq> pd_distance x"
      using Cons.prems(2,3) by (auto simp: insert_poi_def)
    have "\<exists>d'. insert_pois cap stop_id pds (?d1, c + 1) = ((d', c + 1 + length pds), None) \<and>
         stops d' = stops ?d1 \<and>
         map p_distance (pois d') = map p_distance (pois ?d1) @ map pd_distance pds \<and>
         map p_stop_id (pois d') = map p_stop_id (pois ?d1) @ map (\<lambda>pd. stop_id) pds \<and>
         (\<forall>x \<in> set pds. \<not> is_new d' stop_id x)"
      by (rule Cons.IH) (use Cons.prems 3 in auto)
    then obtain d' where
      e: "insert_pois cap stop_id pds (?d1, c + 1) = ((d', c + 1 + length pds), None)"
      and ih: "stops d' = stops ?d1"
        "map p_distance (pois d') = map p_distance (pois ?d1) @ map pd_distance pds"
        "map p_stop_id (pois d') = map p_stop_id (pois ?d1) @ map (\<lambda>pd. stop_id) pds"
        "\<forall>x \<in> set pds. \<not> is_new d' stop_id x"
      by blast
    from insert_pois_result [OF e lt] have "extends ?d1 d'" by simp
    with st have "\<not> is_new d' stop_id pd" using is_new_mono by blast
    with ih e show ?thesis
      unfolding r by (simp add: insert_poi_def)
  qed
qed

text \<open>
  When the loop over a response has reached the cap, the records that follow in the
  response are not looked at.
\<close>

lemma insert_pois_cap_reached:
  "insert_pois cap stop_id pre (d, c) = ((d', cap), None) \<Longrightarrow> c < cap \<Longrightarrow>
   insert_pois cap stop_id (pre @ post) (d, c) = ((d', cap), None)"
proof (induction pre arbitrary: d c)
  case Nil
  then show ?case by simp
next
  case (Cons pd pre)
  show ?case
  proof (cases "store_poi stop_id pd d")
    case (Inl e)
    with Cons.prems show ?thesis by simp
  next
    case (Inr p)
    obtain d1 b where p: "p = (d1, b)" by (cases p) auto
    with Inr have s: "store_poi stop_id pd d = Inr (d1, b)" by simp
    show ?thesis
    proof (cases "b \<and> c + 1 \<ge> cap")
      case True
      with Cons.prems s show ?thesis by auto
    next
      case False
      define c1 where "c1 = (if b then c + 1 else c)"
      from False Cons.prems s have rec: "insert_pois cap stop_id pre (d1, c1) = ((d', cap), None)"
        by (auto simp: c1_def split: if_splits)
      from False Cons.prems(2) have "c1 < cap" by (auto simp: c1_def)
      from Cons.IH [OF rec this] False s show ?thesis
        by (auto simp: c1_def split: if_splits)
    qed
  qed
qed

text \<open>The 25 records of \<open>twenty_five\<close> on the store with one stop and no POI row.\<close>

lemma twenty_five_inserted:
  "\<exists>d'. insert_pois 25 1 twenty_five (db_one_stop, 0) = ((d', 25), None) \<and>
        stops d' = stops db_one_stop \<and>
        map p_distance (pois d') = map pd_distance twenty_five \<and>
        map p_stop_id (pois d') = map (\<lambda>pd. 1) twenty_five \<and>
        (\<forall>pd \<in> set twenty_five. \<not> is_new d' 1 pd)"
proof -
  have "\<exists>d'. insert_pois 25 1 twenty_five (db_one_stop, 0) = ((d', 0 + length twenty_five), None) \<and>
         stops d' = stops db_one_stop \<and>
         map p_distance (pois d') = map p_distance (pois db_one_stop) @ map pd_distance twenty_five \<and>
         map p_stop_id (pois d') = map p_stop_id (pois db_one_stop) @ map (\<lambda>pd. 1) twenty_five \<and>
         (\<forall>pd \<in> set twenty_five. \<not> is_new d' 1 pd)"
  proof (rule insert_pois_all_new)
    show "\<forall>pd \<in> set twenty_five. keyed pd \<and> bindable (pd_distance pd)"
      by (auto simp: twenty_five_def keyed_def atm_def get_or_def bindable_def)
    show "distinct (map pd_distance twenty_five)"
      by (simp add: twenty_five_def distinct_map comp_def atm_def inj_on_def)
    show "\<forall>pd \<in> set twenty_five. \<forall>p \<in> set (pois db_one_stop).
           p_stop_id p = 1 \<longrightarrow> p_distance p \<noteq> pd_distance pd"
      by (simp add: db_one_stop_def)
    show "0 + length twenty_five \<le> 25" by (simp add: twenty_five_def)
  qed
  then show ?thesis
    by (simp add: twenty_five_def db_one_stop_def)
qed

lemma db_one_stop_facts:
  "reordered_stops db_one_stop = [(1, Some ''39.95'', Some ''-75.16'', Some ''Stop 39.95'')]"
  "select_all_stops db_one_stop = [(1, Some ''39.95'', Some ''-75.16'', Some ''Stop 39.95'')]"
  "count_for_radius db_one_stop n = 0"
proof -
  show "reordered_stops db_one_stop = [(1, Some ''39.95'', Some ''-75.16'', Some ''Stop 39.95'')]"
    by code_simp
  show "select_all_stops db_one_stop = [(1, Some ''39.95'', Some ''-75.16'', Some ''Stop 39.95'')]"
    by code_simp
  show "count_for_radius db_one_stop n = 0"
    by (simp add: count_for_radius_def db_one_stop_def)
qed



subsection \<open>Records without a distance\<close>

lemma poi_count_append:
  "poi_count (d\<lparr>pois := pois d @ [p]\<rparr>) radius sid =
     poi_count d radius sid + (if sid = p_stop_id p \<and> sql_le (p_distance p) radius then 1 else 0)"
  by (simp add: poi_count_def)

text \<open>
  Claim C10, as amended. A record without a \<open>distance\<close> field gets its row when the
  loop reaches it, not in every run. The existence check finds no row for it, whatever
  the store holds: the body of the loop inserts a row with a NULL distance, name and
  category being the record's or the sentinels, and so does the loop over a response
  that reaches the record below the cap. When a run of \<open>store_pois\<close> returns a count
  below the cap, every stop of the table is saturated at the end or has, among the rows
  that the run appended, the row of each record without a distance of its response.
  The row counts in \<open>COUNT(*)\<close> for the saturation test, and it changes the count of
  the aggregator at no threshold, for no stop.
\<close>

theorem null_distance_poi:
  assumes "pd_distance pd = None"
  shows "store_poi stop_id pd d =
           Inr (insert_poi d stop_id None (get_or (pd_name pd) (Some ''Unknown Name''))
                  (get_or (pd_class pd) (Some ''Unknown Category'')), True) \<and>
         (c < cap \<longrightarrow>
            c < snd (fst (insert_pois cap stop_id (pd # pds) (d, c))) \<and>
            (\<exists>more. pois (fst (fst (insert_pois cap stop_id (pd # pds) (d, c)))) =
               pois d @
               \<lparr>p_id = next_id (map p_id (pois d)), p_stop_id = stop_id, p_distance = None,
                 p_category = get_or (pd_class pd) (Some ''Unknown Category''),
                 p_name = get_or (pd_name pd) (Some ''Unknown Name'')\<rparr> # more)) \<and>
         (snd (store_pois requests_get e) = Inr n \<and> n < BATCH_SIZE \<longrightarrow>
            (\<forall>stop \<in> set (select_all_stops e).
               nulls_stored requests_get e (fst (store_pois requests_get e)) stop)) \<and>
         count_for_radius
           (insert_poi d stop_id None (get_or (pd_name pd) (Some ''Unknown Name''))
              (get_or (pd_class pd) (Some ''Unknown Category''))) stop_id =
           count_for_radius d stop_id + 1 \<and>
         (\<forall>radius sid.
            poi_count
              (insert_poi d stop_id None (get_or (pd_name pd) (Some ''Unknown Name''))
                 (get_or (pd_class pd) (Some ''Unknown Category''))) radius sid =
            poi_count d radius sid)"
proof -
  let ?d1 = "insert_poi d stop_id None (get_or (pd_name pd) (Some ''Unknown Name''))
               (get_or (pd_class pd) (Some ''Unknown Category''))"
  have s: "store_poi stop_id pd d = Inr (?d1, True)"
    using assms by (rule store_poi_null)
  have loop: "c < snd (fst (insert_pois cap stop_id (pd # pds) (d, c))) \<and>
            (\<exists>more. pois (fst (fst (insert_pois cap stop_id (pd # pds) (d, c)))) = pois ?d1 @ more)"
    if "c < cap"
  proof (cases "c + 1 \<ge> cap")
    case True
    with s show ?thesis by simp
  next
    case False
    then have lt: "c + 1 < cap" by simp
    obtain d' c' err where e: "insert_pois cap stop_id pds (?d1, c + 1) = ((d', c'), err)"
      by (cases "insert_pois cap stop_id pds (?d1, c + 1)") auto
    from insert_pois_result [OF e lt] have "extends ?d1 d'" "c + 1 \<le> c'" by simp_all
    with s e False show ?thesis by (auto simp: extends_def)
  qed
  have run: "snd (store_pois requests_get e) = Inr n \<and> n < BATCH_SIZE \<longrightarrow>
            (\<forall>stop \<in> set (select_all_stops e).
               nulls_stored requests_get e (fst (store_pois requests_get e)) stop)"
    using store_pois_below_cap [of requests_get e n] by blast
  have cnt: "count_for_radius ?d1 stop_id = count_for_radius d stop_id + 1"
    by (simp add: count_for_radius_def insert_poi_def)
  have agg: "poi_count ?d1 radius sid = poi_count d radius sid" for radius sid
    by (simp add: insert_poi_def poi_count_append)
  from s loop run cnt agg show ?thesis
    by (auto simp: insert_poi_def)
qed

text \<open>
  A record with neither distance nor category, in a whole run of \<open>store_pois\<close>: the run
  returns 1, below the cap, and the row it appended is the row of the record.
\<close>

theorem null_distance_poi_witness:
  "pd_distance bare_atm = None \<and>
   store_poi 1 bare_atm db_one_stop =
     Inr (db_one_stop\<lparr>pois := [\<lparr>p_id = 1, p_stop_id = 1, p_distance = None,
         p_category = Some ''Unknown Category'', p_name = Some ''ATM''\<rparr>]\<rparr>, True) \<and>
   store_pois no_distance db_one_stop =
     (db_one_stop\<lparr>pois := [\<lparr>p_id = 1, p_stop_id = 1, p_distance = None,
         p_category = Some ''Unknown Category'', p_name = Some ''ATM''\<rparr>]\<rparr>, Inr 1) \<and>
   1 < BATCH_SIZE \<and>
   select_all_stops db_one_stop = [(1, Some ''39.95'', Some ''-75.16'', Some ''Stop 39.95'')] \<and>
   nulls_stored no_distance db_one_stop (fst (store_pois no_distance db_one_stop))
     (1, Some ''39.95'', Some ''-75.16'', Some ''Stop 39.95'') \<and>
   count_for_radius (fst (store_pois no_distance db_one_stop)) 1 = 1 \<and>
   map (\<lambda>r. poi_count (fst (store_pois no_distance db_one_stop)) r 1) POI_RADII = [0, 0, 0]"
proof -
  have h: "pd_distance bare_atm = None"
    by (simp add: bare_atm_def)
  have i: "insert_poi db_one_stop 1 None (get_or (pd_name bare_atm) (Some ''Unknown Name''))
              (get_or (pd_class bare_atm) (Some ''Unknown Category'')) =
            db_one_stop\<lparr>pois := [\<lparr>p_id = 1, p_stop_id = 1, p_distance = None,
              p_category = Some ''Unknown Category'', p_name = Some ''ATM''\<rparr>]\<rparr>"
    by code_simp
  have 2: "store_pois no_distance db_one_stop =
     (db_one_stop\<lparr>pois := [\<lparr>p_id = 1, p_stop_id = 1, p_distance = None,
         p_category = Some ''Unknown Category'', p_name = Some ''ATM''\<rparr>]\<rparr>, Inr 1)"
    by code_simp
  have 3: "count_for_radius (fst (store_pois no_distance db_one_stop)) 1 = 1 \<and>
   map (\<lambda>r. poi_count (fst (store_pois no_distance db_one_stop)) r 1) POI_RADII = [0, 0, 0]"
    by code_simp
  have l: "1 < BATCH_SIZE"
    by (simp add: BATCH_SIZE_def)
  have sa: "select_all_stops db_one_stop = [(1, Some ''39.95'', Some ''-75.16'', Some ''Stop 39.95'')]"
    by code_simp
  from 2 have r: "snd (store_pois no_distance db_one_stop) = Inr 1" by simp
  note t = null_distance_poi [OF h, of 1 db_one_stop 0 1 "[]" no_distance db_one_stop 1]
  from t i have 1: "store_poi 1 bare_atm db_one_stop =
     Inr (db_one_stop\<lparr>pois := [\<lparr>p_id = 1, p_stop_id = 1, p_distance = None,
         p_category = Some ''Unknown Category'', p_name = Some ''ATM''\<rparr>]\<rparr>, True)"
    by simp
  from t r l sa have 4: "nulls_stored no_distance db_one_stop (fst (store_pois no_distance db_one_stop))
     (1, Some ''39.95'', Some ''-75.16'', Some ''Stop 39.95'')"
    by simp
  from h 1 2 3 4 l sa show ?thesis by blast
qed

text \<open>
  Counterexample to claim C10 as stated: the response of the stop holds 25 new records
  with the distances 1 to 25 and then a record without a distance. The run reaches the
  cap with the 25th insertion and returns 25; the stop is not saturated, and no row was
  inserted for the record without a distance.
\<close>

theorem null_distance_poi_cap_reached:
  "fetch_locationiq_pois bare_after_cap (Some ''39.95'') (Some ''-75.16'') (POI_RADII ! 2) =
     twenty_five @ [bare_atm] \<and>
   pd_distance bare_atm = None \<and>
   select_all_stops db_one_stop = [(1, Some ''39.95'', Some ''-75.16'', Some ''Stop 39.95'')] \<and>
   snd (store_pois bare_after_cap db_one_stop) = Inr 25 \<and>
   map p_distance (pois (fst (store_pois bare_after_cap db_one_stop))) =
     map (\<lambda>k. Some (int k)) [1..<26] \<and>
   None \<notin> set (map p_distance (pois (fst (store_pois bare_after_cap db_one_stop)))) \<and>
   count_for_radius (fst (store_pois bare_after_cap db_one_stop)) 1 = 25"
proof -
  have f: "fetch_locationiq_pois bare_after_cap (Some ''39.95'') (Some ''-75.16'') (POI_RADII ! 2)
             = twenty_five @ [bare_atm]"
    by (simp add: fetch_locationiq_pois_def bare_after_cap_def atms_at_def ok_def)
  have h: "pd_distance bare_atm = None"
    by (simp add: bare_atm_def)
  from twenty_five_inserted obtain d' where
    e: "insert_pois 25 1 twenty_five (db_one_stop, 0) = ((d', 25), None)"
    and di: "map p_distance (pois d') = map pd_distance twenty_five"
    and si: "map p_stop_id (pois d') = map (\<lambda>pd. 1) twenty_five"
    by blast
  from insert_pois_cap_reached [OF e, of "[bare_atm]"]
  have e': "insert_pois 25 1 (twenty_five @ [bare_atm]) (db_one_stop, 0) = ((d', 25), None)"
    by simp
  have sp: "store_pois bare_after_cap db_one_stop = (d', Inr 25)"
    using e' by (simp add: store_pois_def store_pois_cap_def BATCH_SIZE_def db_one_stop_facts f)
  have dm: "map pd_distance twenty_five = map (\<lambda>k. Some (int k)) [1..<26]"
    by (simp add: twenty_five_def atm_def comp_def)
  have nn: "None \<notin> set (map p_distance (pois d'))"
    unfolding di dm by auto
  have "count_for_radius d' 1 = length (filter (\<lambda>i. i = 1) (map p_stop_id (pois d')))"
    by (simp add: count_for_radius_def filter_map comp_def)
  also have "\<dots> = 25"
    unfolding si by (simp add: twenty_five_def comp_def)
  finally have cn: "count_for_radius d' 1 = 25" .
  from f h sp di dm nn cn db_one_stop_facts(2) show ?thesis
    by simp
qed

section \<open>The aggregator\<close>

lemma unique_dict_fold: "unique_dict xs = fold keep_max xs []"
  by (simp add: unique_dict_def)

lemma keep_max_map_of:
  "map_of (keep_max (n', c) u) n =
     (if n = n' then Some (case map_of u n of None \<Rightarrow> c | Some c0 \<Rightarrow> max c0 c) else map_of u n)"
  by (auto simp: keep_max_def update_conv' max_def split: option.splits)

lemma keep_max_distinct: "distinct (map fst u) \<Longrightarrow> distinct (map fst (keep_max e u))"
  by (cases e) (auto simp: keep_max_def distinct_update split: option.splits)

lemma keep_max_keys: "fst ` set (keep_max e u) = insert (fst e) (fst ` set u)"
proof (cases e)
  case (Pair n c)
  show ?thesis
  proof (cases "map_of u n")
    case None
    with Pair show ?thesis by (simp add: keep_max_def dom_update)
  next
    case (Some c0)
    then have "n \<in> fst ` set u" by (metis map_of_eq_None_iff option.distinct(1))
    with Some Pair show ?thesis by (auto simp: keep_max_def dom_update)
  qed
qed

lemma fold_keep_max_distinct:
  "distinct (map fst u) \<Longrightarrow> distinct (map fst (fold keep_max xs u))"
  by (induction xs arbitrary: u) (simp_all add: keep_max_distinct)

lemma fold_keep_max_keys: "fst ` set (fold keep_max xs u) = fst ` set xs \<union> fst ` set u"
  by (induction xs arbitrary: u) (auto simp: keep_max_keys)

lemma fold_keep_max_map_of:
  "map_of (fold keep_max xs u) n =
     (case map snd (filter (\<lambda>e. fst e = n) xs) of
        [] \<Rightarrow> map_of u n
      | c # cs \<Rightarrow> Some (Max (set (c # cs) \<union> set_option (map_of u n))))"
proof (induction xs arbitrary: u)
  case Nil
  then show ?case by simp
next
  case (Cons x xs)
  obtain n' c where x: "x = (n', c)" by (cases x) auto
  show ?case
  proof (cases "n' = n")
    case False
    then have "map_of (keep_max x u) n = map_of u n"
      using x by (simp add: keep_max_map_of)
    with False x Cons.IH [of "keep_max x u"] show ?thesis
      by (simp split: list.splits)
  next
    case True
    have m: "map_of (keep_max x u) n = Some (case map_of u n of None \<Rightarrow> c | Some c0 \<Rightarrow> max c0 c)"
      using True x by (simp add: keep_max_map_of)
    show ?thesis
    proof (cases "map snd (filter (\<lambda>e. fst e = n) xs)")
      case Nil
      with True x m Cons.IH [of "keep_max x u"] show ?thesis
        by (auto split: option.splits simp: max.commute)
    next
      case (Cons c1 cs)
      have "Max (insert c1 (set cs) \<union> {case map_of u n of None \<Rightarrow> c | Some c0 \<Rightarrow> max c0 c}) =
            Max (insert c (insert c1 (set cs)) \<union> set_option (map_of u n))"
      proof (cases "map_of u n")
        case None
        then show ?thesis by (simp add: insert_commute)
      next
        case (Some c0)
        have "Max (insert (max c0 c) (insert c1 (set cs))) = max (max c0 c) (Max (insert c1 (set cs)))"
          by (rule Max_insert) auto
        moreover have "Max (insert c0 (insert c (insert c1 (set cs)))) = max c0 (max c (Max (insert c1 (set cs))))"
          by (simp del: Max_insert add: Max_insert [of "insert c1 (set cs)"] Max_insert [of "insert c (insert c1 (set cs))"])
        ultimately show ?thesis using Some
          by (simp add: insert_commute max.assoc del: Max_insert)
      qed
      with Cons True x m Cons.IH [of "keep_max x u"] show ?thesis
        by simp
    qed
  qed
qed

text \<open>
  \<open>unique_dict\<close> keeps one item per name, with the largest count of that name.
\<close>

lemma unique_dict_entry:
  assumes "n \<in> fst ` set xs"
  shows "filter (\<lambda>e. fst e = n) (unique_dict xs) =
           [(n, Max (set (map snd (filter (\<lambda>e. fst e = n) xs))))]"
proof -
  from assms have ne: "map snd (filter (\<lambda>e. fst e = n) xs) \<noteq> []"
    by (auto simp: filter_empty_conv)
  then have m: "map_of (unique_dict xs) n = Some (Max (set (map snd (filter (\<lambda>e. fst e = n) xs))))"
    by (cases "map snd (filter (\<lambda>e. fst e = n) xs)")
       (simp_all add: unique_dict_fold fold_keep_max_map_of)
  have d: "distinct (map fst (unique_dict xs))"
    by (simp add: unique_dict_fold fold_keep_max_distinct)
  have g: "distinct (map fst al) \<Longrightarrow> map_of al k = Some v \<Longrightarrow> filter (\<lambda>e. fst e = k) al = [(k, v)]"
    for al :: "(sqltext \<times> nat) list" and k v
  proof (induction al)
    case Nil
    then show ?case by simp
  next
    case (Cons a al)
    show ?case
    proof (cases "fst a = k")
      case True
      with Cons.prems have "a = (k, v)" by (cases a) auto
      moreover from True Cons.prems have "k \<notin> fst ` set al"
        by auto
      then have "filter (\<lambda>e. fst e = k) al = []"
        by (auto simp: filter_empty_conv)
      ultimately show ?thesis by simp
    next
      case False
      with Cons show ?thesis by (cases a) auto
    qed
  qed
  from g [OF d m] show ?thesis .
qed

lemma fold_add_row_map_of:
  "map_of (fold add_row rows acc) t =
     (case map snd (filter (\<lambda>r. fst r = t) rows) of
        [] \<Rightarrow> map_of acc t
      | e # es \<Rightarrow> Some ((case map_of acc t of None \<Rightarrow> [] | Some l \<Rightarrow> l) @ e # es))"
proof (induction rows arbitrary: acc)
  case Nil
  then show ?case by simp
next
  case (Cons r rows)
  obtain t' n c where r: "r = (t', n, c)" by (cases r) auto
  have a: "map_of (add_row r acc) t =
     (if t = t' then Some ((case map_of acc t of None \<Rightarrow> [] | Some l \<Rightarrow> l) @ [(n, c)]) else map_of acc t)"
    by (simp add: add_row_def r update_conv')
  show ?case
    using Cons.IH [of "add_row r acc"] a r
    by (auto split: list.splits)
qed

text \<open>
  Grouping by type, deduplicating and sorting, for one stop type.
\<close>

lemma stops_list_of_eq:
  "stops_list_of d radius stype = sort_key snd (unique_dict (entries_of d radius stype))"
proof -
  have e: "map snd (filter (\<lambda>r. fst r = stype) (joined_rows d radius)) = entries_of d radius stype"
    by (simp add: joined_rows_def entries_of_def filter_map comp_def)
  have "map_of (group_by_type (joined_rows d radius)) stype =
          (case entries_of d radius stype of [] \<Rightarrow> None | e # es \<Rightarrow> Some (e # es))"
    using fold_add_row_map_of [of "joined_rows d radius" "[]" stype]
    by (simp add: group_by_type_def add_row_def e split: list.splits)
  then show ?thesis
    by (simp add: stops_list_of_def data_by_type_def map_of_map unique_dict_def split: list.splits)
qed

text \<open>
  Claim C8. For every stop of a category, the list of that category at a threshold
  holds exactly one entry with the display name of the stop, and its count is the
  maximum of the POI counts of the stops of that category with that name.
\<close>

theorem calculate_data_keeps_max:
  assumes "s \<in> set (stops d)" and "s_stop_type s = stype"
  shows "filter (\<lambda>e. fst e = s_name s) (stops_list_of d radius stype) =
           [(s_name s,
             Max (set (map (\<lambda>s'. poi_count d radius (s_id s'))
                        (filter (\<lambda>s'. s_stop_type s' = stype \<and> s_name s' = s_name s) (stops d)))))]"
proof -
  have "s_name s \<in> fst ` set (entries_of d radius stype)"
    using assms by (force simp: entries_of_def)
  from unique_dict_entry [OF this]
  have "filter (\<lambda>e. fst e = s_name s) (unique_dict (entries_of d radius stype)) =
          [(s_name s, Max (set (map snd (filter (\<lambda>e. fst e = s_name s) (entries_of d radius stype)))))]" .
  moreover have "map snd (filter (\<lambda>e. fst e = s_name s) (entries_of d radius stype)) =
     map (\<lambda>s'. poi_count d radius (s_id s'))
         (filter (\<lambda>s'. s_stop_type s' = stype \<and> s_name s' = s_name s) (stops d))"
    by (simp add: entries_of_def filter_map comp_def conj_commute)
  ultimately show ?thesis
    by (simp add: stops_list_of_eq filter_sort)
qed

text \<open>
  Two stops named Main St with counts 2 and 7 collapse to one entry with count 7.
\<close>

theorem calculate_data_keeps_max_witness:
  "stored 1 ''bus_stops'' (Some ''10'') (Some ''Main St'') \<in> set (stops db_main_st) \<and>
   joined_rows db_main_st 416 =
     [(''bus_stops'', Some ''Main St'', 2), (''bus_stops'', Some ''Main St'', 7)] \<and>
   filter (\<lambda>e. fst e = Some ''Main St'') (stops_list_of db_main_st 416 ''bus_stops'')
     = [(Some ''Main St'', 7)] \<and>
   stops_list_of db_main_st 416 ''bus_stops'' = [(Some ''Main St'', 7)]"
proof -
  have 1: "stored 1 ''bus_stops'' (Some ''10'') (Some ''Main St'') \<in> set (stops db_main_st)"
    by (simp add: db_main_st_def)
  have 2: "s_stop_type (stored 1 ''bus_stops'' (Some ''10'') (Some ''Main St'')) = ''bus_stops''"
    by (simp add: stored_def)
  have 3: "joined_rows db_main_st 416 =
     [(''bus_stops'', Some ''Main St'', 2), (''bus_stops'', Some ''Main St'', 7)]"
    by code_simp
  have 4: "stops_list_of db_main_st 416 ''bus_stops'' = [(Some ''Main St'', 7)]"
    by code_simp
  have 5: "Max (set (map (\<lambda>s'. poi_count db_main_st 416 (s_id s'))
              (filter (\<lambda>s'. s_stop_type s' = ''bus_stops'' \<and>
                 s_name s' = s_name (stored 1 ''bus_stops'' (Some ''10'') (Some ''Main St'')))
               (stops db_main_st)))) = 7"
    by code_simp
  from calculate_data_keeps_max [OF 1 2, of 416] 5
  have "filter (\<lambda>e. fst e = Some ''Main St'') (stops_list_of db_main_st 416 ''bus_stops'')
     = [(Some ''Main St'', 7)]"
    by (simp add: stored_def)
  with 1 3 4 show ?thesis by blast
qed

end
